theory Spec2Isabelle
  imports Main "HOL-Library.Sublist" "HOL-Library.AList"
begin

section \<open>The Thunderstore packager (package-thunderstore.py)\<close>

text \<open>
  A shallow embedding of \<^verbatim>\<open>ThunderstorePackager\<close> and of \<^verbatim>\<open>main\<close>.
  The file system is explicit state: an association list from absolute paths (lists of
  components, the root being the empty list) to nodes. Printing is a log of messages that
  the functions append to. Every exception the source can raise is a value of
  \<open>error\<close>, and a function that fails returns the world as it was when the exception
  left it. Symbolic links and permissions are not modelled.
\<close>

subsection \<open>Python values and string formatting\<close>

text \<open>
  \<^verbatim>\<open>variant\<close> is formatted into f-strings. argparse hands over either a
  string or, for a default that is a list, that list; so the value is a small sum of
  Python values and \<open>py_str\<close> is what \<^verbatim>\<open>str()\<close> gives for it.
\<close>

datatype pyval = PyStr string | PyList "pyval list"

definition hex_digit :: "nat \<Rightarrow> char" where
  "hex_digit n = ''0123456789abcdef'' ! (n mod 16)"

definition py_escape_char :: "char \<Rightarrow> char \<Rightarrow> string" where
  "py_escape_char quote c =
     (if c = quote \<or> c = CHR 0x5C then [CHR 0x5C, c]
      else if c = CHR 0x0A then [CHR 0x5C, CHR ''n'']
      else if c = CHR 0x0D then [CHR 0x5C, CHR ''r'']
      else if c = CHR 0x09 then [CHR 0x5C, CHR ''t'']
      else if of_char c < (32::nat) \<or> of_char c = (127::nat)
              \<or> ((128::nat) \<le> of_char c \<and> of_char c \<le> (160::nat))
              \<or> of_char c = (173::nat)
        then [CHR 0x5C, CHR ''x'', hex_digit (of_char c div 16), hex_digit (of_char c)]
      else [c])"

definition py_repr_str :: "string \<Rightarrow> string" where
  "py_repr_str s =
     (let quote = (if CHR 0x27 \<in> set s \<and> CHR 0x22 \<notin> set s then CHR 0x22 else CHR 0x27)
      in [quote] @ concat (map (py_escape_char quote) s) @ [quote])"

fun join :: "string \<Rightarrow> string list \<Rightarrow> string" where
  "join sep [] = []"
| "join sep [x] = x"
| "join sep (x # y # ys) = x @ sep @ join sep (y # ys)"

fun py_repr :: "pyval \<Rightarrow> string" where
  "py_repr (PyStr s) = py_repr_str s"
| "py_repr (PyList xs) = ''['' @ join '', '' (map py_repr xs) @ '']''"

fun py_str :: "pyval \<Rightarrow> string" where
  "py_str (PyStr s) = s"
| "py_str (PyList xs) = py_repr (PyList xs)"

subsection \<open>Paths\<close>

type_synonym path = "string list"

fun splitc :: "char \<Rightarrow> string \<Rightarrow> string list" where
  "splitc c [] = [[]]"
| "splitc c (x # xs) =
     (if x = c then [] # splitc c xs
      else (case splitc c xs of [] \<Rightarrow> [[x]] | h # t \<Rightarrow> (x # h) # t))"

text \<open>
  \<^verbatim>\<open>base / name\<close> of pathlib, for a relative \<open>name\<close> (every string the source
  joins starts with a fixed letter): the string is cut at slashes, empty and \<^verbatim>\<open>.\<close>
  components go.
\<close>

definition path_parts :: "string \<Rightarrow> path" where
  "path_parts s = filter (\<lambda>x. x \<noteq> [] \<and> x \<noteq> ''.'') (splitc CHR ''/'' s)"

definition path_div :: "path \<Rightarrow> string \<Rightarrow> path" where
  "path_div base name = base @ path_parts name"

subsection \<open>The file system\<close>

datatype jval = JStr string | JList "string list"

datatype content =
    Data string
  | Image string nat nat
  | Json "(string \<times> jval) list"
  | Archive "(path \<times> content) list"

text \<open>
  \<open>Image fmt w h\<close> is a file that the image library identifies as format \<open>fmt\<close>
  of \<open>w\<close> by \<open>h\<close> pixels; \<open>Json d\<close> is the text \<^verbatim>\<open>json.dump\<close> writes for the
  dictionary \<open>d\<close>; \<open>Archive es\<close> is a zip file with the file entries \<open>es\<close>.
\<close>

datatype node = File content | Dir

type_synonym filesys = "(path \<times> node) list"

datatype fnf = BuildFileNotFound path | NoSuchFile path

datatype error =
    FileNotFoundError fnf
  | FileExistsError
  | NotADirectoryError
  | IsADirectoryError
  | SameFileError
  | UnidentifiedImageError
  | BadZipFile
  | ValueError
  | SystemExit nat

definition lookup :: "filesys \<Rightarrow> path \<Rightarrow> node option" where
  "lookup fs p = (if p = [] then Some Dir else map_of fs p)"

definition path_exists :: "filesys \<Rightarrow> path \<Rightarrow> bool" where
  "path_exists fs p = (lookup fs p \<noteq> None)"

definition is_dir :: "filesys \<Rightarrow> path \<Rightarrow> bool" where
  "is_dir fs p = (lookup fs p = Some Dir)"

definition is_file :: "filesys \<Rightarrow> path \<Rightarrow> bool" where
  "is_file fs p = (case lookup fs p of Some (File c) \<Rightarrow> True | _ \<Rightarrow> False)"

definition put :: "filesys \<Rightarrow> path \<Rightarrow> node \<Rightarrow> filesys" where
  "put fs p n = AList.update p n fs"

text \<open>\<^verbatim>\<open>shutil.rmtree\<close>: the directory and all below it go.\<close>

definition remove_tree :: "filesys \<Rightarrow> path \<Rightarrow> filesys" where
  "remove_tree fs p = filter (\<lambda>(q, n). \<not> prefix p q) fs"

definition rmtree :: "filesys \<Rightarrow> path \<Rightarrow> error + filesys" where
  "rmtree fs p =
     (case lookup fs p of
        None \<Rightarrow> Inl (FileNotFoundError (NoSuchFile p))
      | Some (File c) \<Rightarrow> Inl NotADirectoryError
      | Some Dir \<Rightarrow> Inr (remove_tree fs p))"

text \<open>\<^verbatim>\<open>os.mkdir\<close>: one level, the parent must be a directory.\<close>

definition os_mkdir :: "filesys \<Rightarrow> path \<Rightarrow> error + filesys" where
  "os_mkdir fs p =
     (if path_exists fs p then Inl FileExistsError
      else (case lookup fs (butlast p) of
              None \<Rightarrow> Inl (FileNotFoundError (NoSuchFile p))
            | Some (File c) \<Rightarrow> Inl NotADirectoryError
            | Some Dir \<Rightarrow> Inr (put fs p Dir)))"

text \<open>
  \<^verbatim>\<open>Path.mkdir(parents=False, exist_ok=ok)\<close>, and \<^verbatim>\<open>Path.mkdir(parents=True,
  exist_ok=ok)\<close>, which on a missing parent makes the parent (with \<^verbatim>\<open>exist_ok=True\<close>)
  and tries again. The recursion runs over the reversed path, so that the parent is the
  tail.
\<close>

definition mkdir_noparents :: "filesys \<Rightarrow> path \<Rightarrow> bool \<Rightarrow> error + filesys" where
  "mkdir_noparents fs p ok =
     (case os_mkdir fs p of
        Inr fs' \<Rightarrow> Inr fs'
      | Inl (FileNotFoundError x) \<Rightarrow> Inl (FileNotFoundError x)
      | Inl e \<Rightarrow> (if \<not> ok \<or> \<not> is_dir fs p then Inl e else Inr fs))"

fun mkdir_rev :: "filesys \<Rightarrow> path \<Rightarrow> bool \<Rightarrow> error + filesys" where
  "mkdir_rev fs [] ok = (if ok then Inr fs else Inl FileExistsError)"
| "mkdir_rev fs (x # rp) ok =
     (case os_mkdir fs (rev (x # rp)) of
        Inr fs' \<Rightarrow> Inr fs'
      | Inl (FileNotFoundError e) \<Rightarrow>
          (case mkdir_rev fs rp True of
             Inl e' \<Rightarrow> Inl e'
           | Inr fs' \<Rightarrow> mkdir_noparents fs' (rev (x # rp)) ok)
      | Inl e \<Rightarrow> (if \<not> ok \<or> \<not> is_dir fs (rev (x # rp)) then Inl e else Inr fs))"

definition mkdir_parents :: "filesys \<Rightarrow> path \<Rightarrow> bool \<Rightarrow> error + filesys" where
  "mkdir_parents fs p ok = mkdir_rev fs (rev p) ok"

text \<open>\<^verbatim>\<open>open(p, 'w')\<close> followed by writing \<open>c\<close> and closing.\<close>

definition write_file :: "filesys \<Rightarrow> path \<Rightarrow> content \<Rightarrow> error + filesys" where
  "write_file fs p c =
     (case lookup fs p of
        Some Dir \<Rightarrow> Inl IsADirectoryError
      | Some (File old) \<Rightarrow> Inr (put fs p (File c))
      | None \<Rightarrow>
          (case lookup fs (butlast p) of
             None \<Rightarrow> Inl (FileNotFoundError (NoSuchFile p))
           | Some (File d) \<Rightarrow> Inl NotADirectoryError
           | Some Dir \<Rightarrow> Inr (put fs p (File c))))"

text \<open>\<^verbatim>\<open>shutil.copy2(src, dst)\<close> for a destination that is a file path.\<close>

definition copy2 :: "filesys \<Rightarrow> path \<Rightarrow> path \<Rightarrow> error + filesys" where
  "copy2 fs src dst =
     (case lookup fs src of
        None \<Rightarrow> Inl (FileNotFoundError (NoSuchFile src))
      | Some Dir \<Rightarrow> Inl IsADirectoryError
      | Some (File c) \<Rightarrow> (if src = dst then Inl SameFileError else write_file fs dst c))"

text \<open>
  \<^verbatim>\<open>ZipFile.extractall\<close>: each member's name loses its empty, \<^verbatim>\<open>.\<close> and
  \<^verbatim>\<open>..\<close> components, the directories above the target are made when the parent is
  missing, and the target is written. A member that fails stops the extraction and leaves
  what was written before it.
\<close>

definition sanitize :: "path \<Rightarrow> path" where
  "sanitize arc = filter (\<lambda>x. x \<noteq> [] \<and> x \<noteq> ''.'' \<and> x \<noteq> ''..'') arc"

definition extract_member ::
  "path \<Rightarrow> filesys \<Rightarrow> path \<times> content \<Rightarrow> (error + unit) \<times> filesys"
where
  "extract_member dir fs m =
     (if sanitize (fst m) = [] then (Inl ValueError, fs)
      else
        (let target = dir @ sanitize (fst m); upper = butlast target in
         (case (if path_exists fs upper then Inr fs else mkdir_parents fs upper True) of
            Inl e \<Rightarrow> (Inl e, fs)
          | Inr fs' \<Rightarrow>
              (case write_file fs' target (snd m) of
                 Inl e \<Rightarrow> (Inl e, fs')
               | Inr fs'' \<Rightarrow> (Inr (), fs'')))))"

fun extractall ::
  "path \<Rightarrow> filesys \<Rightarrow> (path \<times> content) list \<Rightarrow> (error + unit) \<times> filesys"
where
  "extractall dir fs [] = (Inr (), fs)"
| "extractall dir fs (m # ms) =
     (case extract_member dir fs m of
        (Inl e, fs') \<Rightarrow> (Inl e, fs')
      | (Inr u, fs') \<Rightarrow> extractall dir fs' ms)"

text \<open>
  \<^verbatim>\<open>os.walk\<close> with \<^verbatim>\<open>relative_to\<close>: the files below \<open>p\<close> that are reached
  through directories only, each with its path relative to \<open>p\<close> and its content. The
  order of the result is the order of the association list (the source's order is the
  operating system's).
\<close>

definition reachable :: "filesys \<Rightarrow> path \<Rightarrow> path \<Rightarrow> bool" where
  "reachable fs p q =
     (strict_prefix p q \<and> list_all (\<lambda>k. is_dir fs (take k q)) [length p ..< length q])"

definition walk :: "filesys \<Rightarrow> path \<Rightarrow> (path \<times> content) list" where
  "walk fs p =
     List.map_filter
       (\<lambda>q. case lookup fs q of
               Some (File c) \<Rightarrow> if reachable fs p q then Some (drop (length p) q, c) else None
             | _ \<Rightarrow> None)
       (remdups (map fst fs))"

subsection \<open>The world, messages and the packager\<close>

text \<open>
  One constructor per \<^verbatim>\<open>print\<close> of the source, carrying the values the
  f-string formats.
\<close>

datatype message =
    WarnIconNotFound path
  | WarnIconSize nat nat
  | WarnIconFormat string
  | WarnPILMissing
  | HintInstallPillow
  | WarnIconUnreadable error
  | WarnDescriptionTruncated
  | CreatedManifest
  | CopiedIcon path
  | IconValidationFailed
  | NoIcon
  | CreateIconAt path
  | CopiedReadme path
  | NoReadme
  | CreateReadmeAt path
  | ExtractingBuild string
  | ErrMissingRequired string
  | PackageIncomplete path
  | PleaseAddMissing
  | CreatingPackage string
  | Added path
  | ErrOutputDirNotFound path
  | HintRunBuild
  | Banner pyval string path
  | Success path
  | ErrNotFound fnf
  | ErrUnexpected error

record world =
  w_fs :: filesys
  w_out :: "message list"
  w_pil :: bool
  w_cwd :: path

definition say :: "message list \<Rightarrow> world \<Rightarrow> world" where
  "say ms w = w\<lparr>w_out := w_out w @ ms\<rparr>"

record packager =
  output_dir :: path
  thunderstore_dir :: path
  variant :: pyval
  version :: string

definition REQUIRED_FILES :: "string list" where
  "REQUIRED_FILES = [''manifest.json'', ''icon.png'', ''README.md'']"

definition ICON_SIZE :: "nat \<times> nat" where
  "ICON_SIZE = (256, 256)"

definition temp_dir :: "packager \<Rightarrow> path" where
  "temp_dir pk = path_div (thunderstore_dir pk) (''temp_'' @ py_str (variant pk))"

text \<open>\<^verbatim>\<open>Image.open\<close>: the format and the size of an image file, or the exception.\<close>

definition image_open :: "filesys \<Rightarrow> path \<Rightarrow> error + (string \<times> nat \<times> nat)" where
  "image_open fs p =
     (case lookup fs p of
        None \<Rightarrow> Inl (FileNotFoundError (NoSuchFile p))
      | Some Dir \<Rightarrow> Inl IsADirectoryError
      | Some (File (Image fmt wd ht)) \<Rightarrow> Inr (fmt, wd, ht)
      | Some (File c) \<Rightarrow> Inl UnidentifiedImageError)"

definition validate_icon :: "packager \<Rightarrow> path \<Rightarrow> world \<Rightarrow> bool \<times> world" where
  "validate_icon pk icon_path w =
     (if \<not> path_exists (w_fs w) icon_path then (False, say [WarnIconNotFound icon_path] w)
      else if \<not> w_pil w then (True, say [WarnPILMissing, HintInstallPillow] w)
      else
        (case image_open (w_fs w) icon_path of
           Inl e \<Rightarrow> (False, say [WarnIconUnreadable e] w)
         | Inr (fmt, wd, ht) \<Rightarrow>
             if (wd, ht) \<noteq> ICON_SIZE then (False, say [WarnIconSize wd ht] w)
             else if fmt \<noteq> ''PNG'' then (False, say [WarnIconFormat fmt] w)
             else (True, w)))"

type_synonym manifest = "(string \<times> jval) list"

definition create_manifest ::
  "packager \<Rightarrow> string \<Rightarrow> string \<Rightarrow> string \<Rightarrow> string list \<Rightarrow> string \<Rightarrow> world \<Rightarrow> manifest \<times> world"
where
  "create_manifest pk name description website_url dependencies namespace w =
     (let (description', w') =
            (if length description > 250
             then (take 247 description @ ''...'', say [WarnDescriptionTruncated] w)
             else (description, w))
      in ([(''name'', JStr name),
           (''version_number'', JStr (version pk)),
           (''website_url'', JStr website_url),
           (''description'', JStr description'),
           (''dependencies'', JList dependencies)], w'))"

text \<open>Lines 125 to 128: the staging directory is removed if it exists and made anew.\<close>

definition reset_temp_dir :: "filesys \<Rightarrow> path \<Rightarrow> (error + unit) \<times> filesys" where
  "reset_temp_dir fs t =
     (case (if path_exists fs t then rmtree fs t else Inr fs) of
        Inl e \<Rightarrow> (Inl e, fs)
      | Inr fs' \<Rightarrow>
          (case mkdir_parents fs' t False of
             Inl e \<Rightarrow> (Inl e, fs')
           | Inr fs'' \<Rightarrow> (Inr (), fs'')))"

text \<open>Lines 136 to 147: the icon.\<close>

definition stage_icon :: "packager \<Rightarrow> path option \<Rightarrow> world \<Rightarrow> (error + unit) \<times> world" where
  "stage_icon pk icon_path w =
     (let dest_icon = path_div (temp_dir pk) ''icon.png'' in
      case icon_path of
        None \<Rightarrow> (Inr (), say [NoIcon, CreateIconAt (path_div (temp_dir pk) ''icon.png'')] w)
      | Some ip \<Rightarrow>
          if path_exists (w_fs w) ip then
            (case validate_icon pk ip w of
               (True, w1) \<Rightarrow>
                 (case copy2 (w_fs w1) ip dest_icon of
                    Inl e \<Rightarrow> (Inl e, w1)
                  | Inr fs' \<Rightarrow> (Inr (), say [CopiedIcon ip] (w1\<lparr>w_fs := fs'\<rparr>)))
             | (False, w1) \<Rightarrow>
                 (let w2 = say [IconValidationFailed] w1 in
                  case copy2 (w_fs w2) ip dest_icon of
                    Inl e \<Rightarrow> (Inl e, w2)
                  | Inr fs' \<Rightarrow> (Inr (), w2\<lparr>w_fs := fs'\<rparr>)))
          else (Inr (), say [NoIcon, CreateIconAt (path_div (temp_dir pk) ''icon.png'')] w))"

text \<open>Lines 149 to 156: the README.\<close>

definition stage_readme :: "packager \<Rightarrow> path option \<Rightarrow> world \<Rightarrow> (error + unit) \<times> world" where
  "stage_readme pk readme_path w =
     (let dest_readme = path_div (temp_dir pk) ''README.md'' in
      case readme_path of
        None \<Rightarrow> (Inr (), say [NoReadme, CreateReadmeAt (path_div (temp_dir pk) ''README.md'')] w)
      | Some rp \<Rightarrow>
          if path_exists (w_fs w) rp then
            (case copy2 (w_fs w) rp dest_readme of
               Inl e \<Rightarrow> (Inl e, w)
             | Inr fs' \<Rightarrow> (Inr (), say [CopiedReadme rp] (w\<lparr>w_fs := fs'\<rparr>)))
          else (Inr (), say [NoReadme, CreateReadmeAt (path_div (temp_dir pk) ''README.md'')] w))"

definition build_zip :: "packager \<Rightarrow> path" where
  "build_zip pk =
     path_div (output_dir pk)
       (''MLLoader-'' @ py_str (variant pk) @ ''-v'' @ version pk @ ''.zip'')"

text \<open>Lines 158 to 167: the build archive is found, opened and unpacked.\<close>

definition extract_build :: "packager \<Rightarrow> world \<Rightarrow> (error + path) \<times> world" where
  "extract_build pk w =
     (if \<not> path_exists (w_fs w) (build_zip pk)
      then (Inl (FileNotFoundError (BuildFileNotFound (build_zip pk))), w)
      else
        (let w1 = say [ExtractingBuild (last (build_zip pk))] w in
         case lookup (w_fs w1) (build_zip pk) of
           Some (File (Archive es)) \<Rightarrow>
             (case extractall (temp_dir pk) (w_fs w1) es of
                (Inl e, fs') \<Rightarrow> (Inl e, w1\<lparr>w_fs := fs'\<rparr>)
              | (Inr u, fs') \<Rightarrow> (Inr (temp_dir pk), w1\<lparr>w_fs := fs'\<rparr>))
         | Some Dir \<Rightarrow> (Inl IsADirectoryError, w1)
         | _ \<Rightarrow> (Inl BadZipFile, w1)))"

definition prepare_package ::
  "packager \<Rightarrow> manifest \<Rightarrow> path option \<Rightarrow> path option \<Rightarrow> world \<Rightarrow> (error + path) \<times> world"
where
  "prepare_package pk manifest_data icon_path readme_path w =
     (case reset_temp_dir (w_fs w) (temp_dir pk) of
        (Inl e, fs1) \<Rightarrow> (Inl e, w\<lparr>w_fs := fs1\<rparr>)
      | (Inr u0, fs1) \<Rightarrow>
          (case write_file fs1 (path_div (temp_dir pk) ''manifest.json'') (Json manifest_data) of
             Inl e \<Rightarrow> (Inl e, w\<lparr>w_fs := fs1\<rparr>)
           | Inr fs2 \<Rightarrow>
               (case stage_icon pk icon_path (say [CreatedManifest] (w\<lparr>w_fs := fs2\<rparr>)) of
                  (Inl e, w3) \<Rightarrow> (Inl e, w3)
                | (Inr u, w3) \<Rightarrow>
                    (case stage_readme pk readme_path w3 of
                       (Inl e, w4) \<Rightarrow> (Inl e, w4)
                     | (Inr u', w4) \<Rightarrow> extract_build pk w4))))"

definition missing_files :: "filesys \<Rightarrow> path \<Rightarrow> string list" where
  "missing_files fs package_dir =
     filter (\<lambda>required. \<not> path_exists fs (path_div package_dir required)) REQUIRED_FILES"

definition output_name :: "packager \<Rightarrow> string" where
  "output_name pk =
     ''BepInEx-MelonLoader_Loader-'' @ py_str (variant pk) @ ''-'' @ version pk @ ''.zip''"

definition output_path :: "packager \<Rightarrow> path" where
  "output_path pk = path_div (thunderstore_dir pk) (output_name pk)"

text \<open>
  Lines 179 to 208. The archive file is opened (and so exists, empty) before the walk
  reads the staging directory, and holds the walk's entries when it is closed.
\<close>

definition create_package :: "packager \<Rightarrow> path \<Rightarrow> world \<Rightarrow> (error + path) \<times> world" where
  "create_package pk package_dir w =
     (let missing = missing_files (w_fs w) package_dir in
      if missing \<noteq> [] then
        (Inl (SystemExit 1),
         say [ErrMissingRequired (join '', '' missing), PackageIncomplete package_dir,
              PleaseAddMissing] w)
      else
        (let w1 = say [CreatingPackage (output_name pk)] w in
         case write_file (w_fs w1) (output_path pk) (Archive []) of
           Inl e \<Rightarrow> (Inl e, w1)
         | Inr fs1 \<Rightarrow>
             (let entries = walk fs1 package_dir;
                  w2 = say (map (\<lambda>m. Added (fst m)) entries)
                         (w1\<lparr>w_fs := put fs1 (output_path pk) (File (Archive entries))\<rparr>)
              in case rmtree (w_fs w2) package_dir of
                   Inl e \<Rightarrow> (Inl e, w2)
                 | Inr fs3 \<Rightarrow> (Inr (output_path pk), w2\<lparr>w_fs := fs3\<rparr>))))"

subsection \<open>The command line and main\<close>

text \<open>
  The flags as given: \<open>None\<close> is a flag left out. Paths are absolute (a relative
  path is taken against the working directory before it gets here, as
  \<^verbatim>\<open>resolve\<close> does).
\<close>

record cli =
  c_variant :: "string option"
  c_version :: "string option"
  c_name :: "string option"
  c_namespace :: "string option"
  c_description :: "string option"
  c_website :: "string option"
  c_deps :: "string list option"
  c_icon :: "path option"
  c_readme :: "path option"
  c_output_dir :: "path option"
  c_thunderstore_dir :: "path option"

record args =
  a_variant :: pyval
  a_version :: string
  a_name :: string
  a_namespace :: string
  a_description :: string
  a_website :: string
  a_deps :: "string list"
  a_icon :: "path option"
  a_readme :: "path option"
  a_output_dir :: path
  a_thunderstore_dir :: path

definition variant_choices :: "string list" where
  "variant_choices = [''IL2CPP-BepInEx6'', ''UnityMono-BepInEx5'', ''UnityMono-BepInEx6'']"

text \<open>
  \<^verbatim>\<open>parse_args\<close>: a flag that is given is checked against the choices (status 2
  otherwise); a flag left out takes its \<^verbatim>\<open>default=\<close> as it is written in the
  source, which for \<^verbatim>\<open>--variant\<close> is a list holding one string.
\<close>

definition parse_args :: "path \<Rightarrow> cli \<Rightarrow> error + args" where
  "parse_args cwd c =
     (case (case c_variant c of
              None \<Rightarrow> Inr (PyList [PyStr ''IL2CPP-BepInEx6''])
            | Some v \<Rightarrow> if v \<in> set variant_choices then Inr (PyStr v) else Inl (SystemExit 2)) of
        Inl e \<Rightarrow> Inl e
      | Inr v \<Rightarrow>
          Inr \<lparr>a_variant = v,
               a_version = (case c_version c of None \<Rightarrow> ''2.1.0'' | Some x \<Rightarrow> x),
               a_name = (case c_name c of None \<Rightarrow> ''MelonLoader_Loader'' | Some x \<Rightarrow> x),
               a_namespace = (case c_namespace c of None \<Rightarrow> ''BepInEx'' | Some x \<Rightarrow> x),
               a_description =
                 (case c_description c of
                    None \<Rightarrow> ''BepInEx loader plugin for running MelonLoader mods. Supports both Unity Mono and IL2CPP games.''
                  | Some x \<Rightarrow> x),
               a_website =
                 (case c_website c of
                    None \<Rightarrow> ''https://github.com/BepInEx/BepInEx.MelonLoader.Loader''
                  | Some x \<Rightarrow> x),
               a_deps =
                 (case c_deps c of
                    None \<Rightarrow> [''BepInEx-BepInExPack_IL2CPP-6.0.733'']
                  | Some x \<Rightarrow> x),
               a_icon = c_icon c,
               a_readme = c_readme c,
               a_output_dir =
                 (case c_output_dir c of None \<Rightarrow> path_div cwd ''Output'' | Some x \<Rightarrow> x),
               a_thunderstore_dir =
                 (case c_thunderstore_dir c of
                    None \<Rightarrow> path_div cwd ''Thunderstore''
                  | Some x \<Rightarrow> x)\<rparr>)"

datatype outcome = Exited nat | Crashed error

definition make_packager :: "args \<Rightarrow> packager" where
  "make_packager a =
     \<lparr>output_dir = a_output_dir a, thunderstore_dir = a_thunderstore_dir a,
      variant = a_variant a, version = a_version a\<rparr>"

text \<open>
  Lines 347 to 373: the \<^verbatim>\<open>try\<close> block. \<^verbatim>\<open>SystemExit\<close> is not an
  \<^verbatim>\<open>Exception\<close> and passes both handlers.
\<close>

definition handle_error :: "error \<Rightarrow> world \<Rightarrow> outcome \<times> world" where
  "handle_error e w =
     (case e of
        SystemExit n \<Rightarrow> (Exited n, w)
      | FileNotFoundError x \<Rightarrow> (Exited 1, say [ErrNotFound x] w)
      | _ \<Rightarrow> (Exited 1, say [ErrUnexpected e] w))"

definition run_packager :: "args \<Rightarrow> world \<Rightarrow> outcome \<times> world" where
  "run_packager a w =
     (let pk = make_packager a;
          (manifest, w1) =
            create_manifest pk (a_name a) (a_description a) (a_website a) (a_deps a)
              (a_namespace a) w;
          icon_path = (case a_icon a of Some p \<Rightarrow> p | None \<Rightarrow> path_div (w_cwd w) ''icon.png'');
          readme_path =
            (case a_readme a of Some p \<Rightarrow> p | None \<Rightarrow> path_div (w_cwd w) ''README.md'');
          w2 = say [Banner (a_variant a) (a_version a) (a_thunderstore_dir a)] w1
      in case prepare_package pk manifest (Some icon_path) (Some readme_path) w2 of
           (Inl e, w3) \<Rightarrow> handle_error e w3
         | (Inr package_dir, w3) \<Rightarrow>
             (case create_package pk package_dir w3 of
                (Inl e, w4) \<Rightarrow> handle_error e w4
              | (Inr package_path, w4) \<Rightarrow>
                  (if path_exists (w_fs w4) package_path
                   then (Exited 0, say [Success package_path] w4)
                   else handle_error (FileNotFoundError (NoSuchFile package_path))
                          (say [Success package_path] w4))))"

definition main :: "cli \<Rightarrow> world \<Rightarrow> outcome \<times> world" where
  "main c w =
     (case parse_args (w_cwd w) c of
        Inl (SystemExit n) \<Rightarrow> (Exited n, w)
      | Inl e \<Rightarrow> (Crashed e, w)
      | Inr a \<Rightarrow>
          if \<not> path_exists (w_fs w) (a_output_dir a)
          then (Exited 1, say [ErrOutputDirNotFound (a_output_dir a), HintRunBuild] w)
          else
            (case mkdir_parents (w_fs w) (a_thunderstore_dir a) True of
               Inl e \<Rightarrow> (Crashed e, w)
             | Inr fs' \<Rightarrow> run_packager a (w\<lparr>w_fs := fs'\<rparr>)))"

subsection \<open>Conditions on the file system\<close>

text \<open>
  The association list can hold what no directory tree does: an entry below a regular
  file, or below nothing. Two conditions say that the place of the staging directory is
  as in a tree: no regular file is at the path or above it, and the path is a directory
  or nothing is stored at or below it.
\<close>

definition no_file_above :: "filesys \<Rightarrow> path \<Rightarrow> bool" where
  "no_file_above fs p = list_all (\<lambda>q. \<not> is_file fs q) (prefixes p)"

definition resettable :: "filesys \<Rightarrow> path \<Rightarrow> bool" where
  "resettable fs t = (is_dir fs t \<or> list_all (\<lambda>(q, n). \<not> prefix t q) fs)"

text \<open>
  \<open>grew fs fs' p\<close>: \<open>fs'\<close> is \<open>fs\<close> with directories added at missing prefixes
  of \<open>p\<close>. \<open>near fs fs' t\<close>: \<open>fs'\<close> differs from \<open>fs\<close> only at paths above or
  below \<open>t\<close>, and at no directory of \<open>fs\<close>.
\<close>

definition grew :: "filesys \<Rightarrow> filesys \<Rightarrow> path \<Rightarrow> bool" where
  "grew fs fs' p =
     (\<forall>q. lookup fs' q = lookup fs q
          \<or> (lookup fs q = None \<and> lookup fs' q = Some Dir \<and> prefix q p))"

definition near :: "filesys \<Rightarrow> filesys \<Rightarrow> path \<Rightarrow> bool" where
  "near fs fs' t =
     (\<forall>q. lookup fs' q \<noteq> lookup fs q \<longrightarrow>
          (prefix q t \<or> prefix t q) \<and> lookup fs q \<noteq> Some Dir)"

text \<open>
  A source for the icon or the README that is given is \<open>outside\<close> the staging
  directory when it is not a directory and lies neither above nor below the staging
  directory; \<open>copied\<close> is the node the copy of such a source leaves.
\<close>

definition outside :: "filesys \<Rightarrow> path \<Rightarrow> path option \<Rightarrow> bool" where
  "outside fs t src =
     (case src of
        None \<Rightarrow> True
      | Some p \<Rightarrow> \<not> is_dir fs p \<and> \<not> prefix p t \<and> \<not> prefix t p)"

definition copied :: "filesys \<Rightarrow> path option \<Rightarrow> node option" where
  "copied fs src =
     (case src of
        None \<Rightarrow> None
      | Some p \<Rightarrow> (case lookup fs p of Some (File c) \<Rightarrow> Some (File c) | _ \<Rightarrow> None))"

text \<open>
  The members of an archive do not clash when, after the names are cleaned as the
  extraction cleans them, no name is empty, none lies below manifest.json and none is a
  proper prefix of another. \<open>staged fs t F D\<close> is what holds of the staging
  directory \<open>t\<close> while such an archive is unpacked: the files below it are among
  \<open>F\<close> and the directories below it are proper prefixes of names in \<open>D\<close>.
\<close>

definition clash_free :: "(path \<times> content) list \<Rightarrow> bool" where
  "clash_free es =
     list_all
       (\<lambda>m. sanitize (fst m) \<noteq> []
            \<and> \<not> strict_prefix [''manifest.json''] (sanitize (fst m))
            \<and> list_all (\<lambda>m'. \<not> strict_prefix (sanitize (fst m')) (sanitize (fst m))) es)
       es"

definition staged :: "filesys \<Rightarrow> path \<Rightarrow> path set \<Rightarrow> path set \<Rightarrow> bool" where
  "staged fs t F D =
     (is_dir fs t \<and> no_file_above fs t
      \<and> (\<forall>r. r \<noteq> [] \<longrightarrow> is_file fs (t @ r) \<longrightarrow> r \<in> F)
      \<and> (\<forall>r. r \<noteq> [] \<longrightarrow> is_dir fs (t @ r) \<longrightarrow> (\<exists>a \<in> D. strict_prefix r a)))"

subsection \<open>Concrete inputs\<close>

text \<open>
  A packager for the IL2CPP variant, and worlds to run it in: an empty project, and
  three whose staging directory lacks the README, all but the manifest, and everything,
  and one whose staging directory is complete, with two extracted files in a subdirectory.
\<close>

definition demo_packager :: packager where
  "demo_packager =
     \<lparr>output_dir = [''w'', ''Output''], thunderstore_dir = [''w'', ''Thunderstore''],
      variant = PyStr ''IL2CPP-BepInEx6'', version = ''2.1.0''\<rparr>"

definition demo_world :: world where
  "demo_world =
     \<lparr>w_fs = [([''w''], Dir), ([''w'', ''Output''], Dir), ([''w'', ''Thunderstore''], Dir)],
      w_out = [], w_pil = True, w_cwd = [''w'']\<rparr>"

definition demo_staging :: path where
  "demo_staging = [''w'', ''Thunderstore'', ''temp_IL2CPP-BepInEx6'']"

definition no_readme_world :: world where
  "no_readme_world =
     \<lparr>w_fs = [([''w''], Dir), ([''w'', ''Output''], Dir), ([''w'', ''Thunderstore''], Dir),
              (demo_staging, Dir),
              (demo_staging @ [''manifest.json''], File (Json [])),
              (demo_staging @ [''icon.png''], File (Image ''PNG'' 256 256))],
      w_out = [], w_pil = True, w_cwd = [''w'']\<rparr>"

definition manifest_only_world :: world where
  "manifest_only_world =
     \<lparr>w_fs = [([''w''], Dir), ([''w'', ''Output''], Dir), ([''w'', ''Thunderstore''], Dir),
              (demo_staging, Dir),
              (demo_staging @ [''manifest.json''], File (Json []))],
      w_out = [], w_pil = True, w_cwd = [''w'']\<rparr>"

definition empty_staging_world :: world where
  "empty_staging_world =
     \<lparr>w_fs = [([''w''], Dir), ([''w'', ''Output''], Dir), ([''w'', ''Thunderstore''], Dir),
              (demo_staging, Dir)],
      w_out = [], w_pil = True, w_cwd = [''w'']\<rparr>"

definition staged_world :: world where
  "staged_world =
     \<lparr>w_fs = [([''w''], Dir), ([''w'', ''Output''], Dir), ([''w'', ''Thunderstore''], Dir),
              (demo_staging, Dir),
              (demo_staging @ [''manifest.json''], File (Json [])),
              (demo_staging @ [''icon.png''], File (Image ''PNG'' 256 256)),
              (demo_staging @ [''README.md''], File (Data ''readme'')),
              (demo_staging @ [''BepInEx''], Dir),
              (demo_staging @ [''BepInEx'', ''a.dll''], File (Data ''a'')),
              (demo_staging @ [''BepInEx'', ''b.dll''], File (Data ''b''))],
      w_out = [], w_pil = True, w_cwd = [''w'']\<rparr>"

definition demo_archive :: path where
  "demo_archive = [''w'', ''Thunderstore'', ''BepInEx-MelonLoader_Loader-IL2CPP-BepInEx6-2.1.0.zip'']"

text \<open>
  The archive name as the specification words it, with the namespace and the package
  identifier as parameters; and arguments that give both.
\<close>

definition spec_archive_name :: "string \<Rightarrow> string \<Rightarrow> string \<Rightarrow> string \<Rightarrow> string" where
  "spec_archive_name namespace ident variant_tag version_string =
     namespace @ ''-'' @ ident @ ''_Loader-'' @ variant_tag @ ''-'' @ version_string @ ''.zip''"

definition team_args :: args where
  "team_args =
     \<lparr>a_variant = PyStr ''IL2CPP-BepInEx6'', a_version = ''2.1.0'', a_name = ''Other'',
      a_namespace = ''Team'', a_description = ''d'', a_website = ''u'', a_deps = [],
      a_icon = None, a_readme = None, a_output_dir = [''w'', ''Output''],
      a_thunderstore_dir = [''w'', ''Thunderstore'']\<rparr>"

text \<open>
  A project with icon, README and a build archive of two files, the same project without
  the build archive, and the command line that names the IL2CPP variant.
\<close>

definition demo_build :: path where
  "demo_build = [''w'', ''Output'', ''MLLoader-IL2CPP-BepInEx6-v2.1.0.zip'']"

definition build_world :: world where
  "build_world =
     \<lparr>w_fs = [([''w''], Dir), ([''w'', ''Output''], Dir), ([''w'', ''Thunderstore''], Dir),
              ([''w'', ''icon.png''], File (Image ''PNG'' 256 256)),
              ([''w'', ''README.md''], File (Data ''readme'')),
              (demo_build,
               File (Archive [([''BepInEx'', ''a.dll''], Data ''a''),
                              ([''BepInEx'', ''b.dll''], Data ''b'')]))],
      w_out = [], w_pil = True, w_cwd = [''w'']\<rparr>"

definition no_build_world :: world where
  "no_build_world =
     \<lparr>w_fs = [([''w''], Dir), ([''w'', ''Output''], Dir), ([''w'', ''Thunderstore''], Dir),
              ([''w'', ''icon.png''], File (Image ''PNG'' 256 256)),
              ([''w'', ''README.md''], File (Data ''readme''))],
      w_out = [], w_pil = True, w_cwd = [''w'']\<rparr>"

definition demo_args :: args where
  "demo_args =
     \<lparr>a_variant = PyStr ''IL2CPP-BepInEx6'', a_version = ''2.1.0'',
      a_name = ''MelonLoader_Loader'', a_namespace = ''BepInEx'',
      a_description = ''BepInEx loader plugin for running MelonLoader mods. Supports both Unity Mono and IL2CPP games.'',
      a_website = ''https://github.com/BepInEx/BepInEx.MelonLoader.Loader'',
      a_deps = [''BepInEx-BepInExPack_IL2CPP-6.0.733''],
      a_icon = None, a_readme = None, a_output_dir = [''w'', ''Output''],
      a_thunderstore_dir = [''w'', ''Thunderstore'']\<rparr>"

text \<open>A project whose build archive holds an icon.png of its own.\<close>

definition icon_zip_world :: world where
  "icon_zip_world =
     \<lparr>w_fs = [([''w''], Dir), ([''w'', ''Output''], Dir), ([''w'', ''Thunderstore''], Dir),
              (demo_build,
               File (Archive [([''icon.png''], Image ''PNG'' 64 64),
                              ([''BepInEx'', ''a.dll''], Data ''a'')]))],
      w_out = [], w_pil = True, w_cwd = [''w'']\<rparr>"

definition icon_world :: "bool \<Rightarrow> world" where
  "icon_world pil =
     \<lparr>w_fs = [([''w''], Dir), ([''w'', ''icon.png''], File (Image ''PNG'' 256 256)),
              ([''w'', ''small.png''], File (Image ''PNG'' 64 64)),
              ([''w'', ''icon.jpg''], File (Image ''JPEG'' 256 256))],
      w_out = [], w_pil = pil, w_cwd = [''w'']\<rparr>"

definition default_cli :: cli where
  "default_cli =
     \<lparr>c_variant = None, c_version = None, c_name = None, c_namespace = None,
      c_description = None, c_website = None, c_deps = None, c_icon = None, c_readme = None,
      c_output_dir = None, c_thunderstore_dir = None\<rparr>"

definition demo_cli :: cli where
  "demo_cli = default_cli\<lparr>c_variant := Some ''IL2CPP-BepInEx6''\<rparr>"

section \<open>Properties\<close>

subsection \<open>Paths\<close>

lemma splitc_no_sep: "c \<notin> set s \<Longrightarrow> splitc c s = [s]"
  by (induction s) auto

lemma path_parts_single:
  "CHR ''/'' \<notin> set s \<Longrightarrow> s \<noteq> [] \<Longrightarrow> s \<noteq> ''.'' \<Longrightarrow> path_parts s = [s]"
  by (simp add: path_parts_def splitc_no_sep)

lemma required_parts [simp]:
  "path_parts ''manifest.json'' = [''manifest.json'']"
  "path_parts ''icon.png'' = [''icon.png'']"
  "path_parts ''README.md'' = [''README.md'']"
  by (simp_all add: path_parts_single)

lemma splitc_hd: "x \<noteq> c \<Longrightarrow> \<exists>h t. splitc c (x # xs) = (x # h) # t"
  by (cases "splitc c xs") auto

lemma path_parts_nonempty:
  "x \<noteq> CHR ''/'' \<Longrightarrow> x \<noteq> CHR ''.'' \<Longrightarrow> path_parts (x # xs) \<noteq> []"
  using splitc_hd [of x "CHR ''/''" xs] by (auto simp: path_parts_def)

lemma path_parts_hd:
  "x \<noteq> CHR ''/'' \<Longrightarrow> x \<noteq> CHR ''.'' \<Longrightarrow> \<exists>h t. path_parts (x # xs) = (x # h) # t"
  using splitc_hd [of x "CHR ''/''" xs] by (auto simp: path_parts_def)

lemma archive_outside_staging: "\<not> prefix (temp_dir pk) (output_path pk)"
proof -
  obtain h t where a: "path_parts (''temp_'' @ py_str (variant pk)) = (CHR ''t'' # h) # t"
    using path_parts_hd [of "CHR ''t''" "''emp_'' @ py_str (variant pk)"] by auto
  obtain h' t' where b: "path_parts (output_name pk) = (CHR ''B'' # h') # t'"
    using path_parts_hd
      [of "CHR ''B''"
          "''epInEx-MelonLoader_Loader-'' @ py_str (variant pk) @ ''-'' @ version pk @ ''.zip''"]
    by (auto simp: output_name_def)
  from a b show ?thesis
    by (simp add: temp_dir_def output_path_def path_div_def)
qed

lemma temp_dir_nonempty: "temp_dir pk \<noteq> []"
  by (simp add: temp_dir_def path_div_def path_parts_nonempty)

lemma output_name_parts:
  "CHR ''/'' \<notin> set (py_str (variant pk)) \<Longrightarrow> CHR ''/'' \<notin> set (version pk) \<Longrightarrow>
     path_parts (output_name pk) = [output_name pk]"
  by (rule path_parts_single) (auto simp: output_name_def)

subsection \<open>Looking up after an update\<close>

lemma map_of_filter_key:
  "map_of (filter (\<lambda>(k, v). P k) al) k = (if P k then map_of al k else None)"
  by (induction al) auto

lemma lookup_root [simp]: "lookup fs [] = Some Dir"
  by (simp add: lookup_def)

lemma lookup_put:
  "lookup (put fs p n) q = (if q = [] then Some Dir else if q = p then Some n else lookup fs q)"
  by (simp add: lookup_def put_def update_conv')

lemma lookup_remove_tree:
  "lookup (remove_tree fs p) q =
     (if q = [] then Some Dir else if prefix p q then None else lookup fs q)"
  by (simp add: lookup_def remove_tree_def map_of_filter_key)

lemma lookup_in_keys: "lookup fs q = Some (File c) \<Longrightarrow> q \<in> set (map fst fs)"
  by (auto simp: lookup_def split: if_splits dest: map_of_SomeD intro: rev_image_eqI)

lemma nothing_below:
  "list_all (\<lambda>(q, n). \<not> prefix t q) fs \<Longrightarrow> prefix t q \<Longrightarrow> q \<noteq> [] \<Longrightarrow> lookup fs q = None"
proof -
  assume a: "list_all (\<lambda>(q, n). \<not> prefix t q) fs" and b: "prefix t q" and c: "q \<noteq> []"
  have "q \<notin> fst ` set fs"
  proof
    assume "q \<in> fst ` set fs"
    then obtain n where "(q, n) \<in> set fs" by auto
    with a have "\<not> prefix t q" by (auto simp: list_all_iff)
    with b show False by simp
  qed
  then have "map_of fs q = None" by (simp add: map_of_eq_None_iff)
  with c show ?thesis by (simp add: lookup_def)
qed


lemma remove_tree_id:
  "list_all (\<lambda>(q, n). \<not> prefix t q) fs \<Longrightarrow> remove_tree fs t = fs"
  by (auto simp: remove_tree_def list_all_iff intro: filter_True)

subsection \<open>What one operation changes\<close>

lemma grew_refl: "grew fs fs p"
  by (simp add: grew_def)

lemma grew_trans:
  assumes "grew fs fs1 p1" and "grew fs1 fs2 p2" and "prefix p1 p2"
  shows "grew fs fs2 p2"
  unfolding grew_def
proof
  fix q
  from assms(1) have a: "lookup fs1 q = lookup fs q
      \<or> (lookup fs q = None \<and> lookup fs1 q = Some Dir \<and> prefix q p1)"
    by (simp add: grew_def)
  from assms(2) have b: "lookup fs2 q = lookup fs1 q
      \<or> (lookup fs1 q = None \<and> lookup fs2 q = Some Dir \<and> prefix q p2)"
    by (simp add: grew_def)
  from a b assms(3)
  show "lookup fs2 q = lookup fs q
      \<or> (lookup fs q = None \<and> lookup fs2 q = Some Dir \<and> prefix q p2)"
    by (auto intro: prefix_order.trans)
qed





lemma near_apart:
  "near fs fs' t \<Longrightarrow> \<not> prefix q t \<Longrightarrow> \<not> prefix t q \<Longrightarrow> lookup fs' q = lookup fs q"
  unfolding near_def by metis

subsection \<open>Making directories\<close>

lemma os_mkdir_effect:
  "os_mkdir fs p = Inr fs' \<Longrightarrow>
     lookup fs p = None \<and> (\<forall>q. lookup fs' q = (if q = p then Some Dir else lookup fs q))"
  by (auto simp: os_mkdir_def path_exists_def lookup_put
      split: if_splits option.splits node.splits)

lemma os_mkdir_grew: "os_mkdir fs p = Inr fs' \<Longrightarrow> grew fs fs' p \<and> is_dir fs' p"
  by (drule os_mkdir_effect) (auto simp: grew_def is_dir_def)

lemma os_mkdir_ok:
  "\<not> path_exists fs p \<Longrightarrow> is_dir fs (butlast p) \<Longrightarrow> \<exists>fs'. os_mkdir fs p = Inr fs'"
  by (simp add: os_mkdir_def is_dir_def)

lemma mkdir_noparents_grew:
  "mkdir_noparents fs p ok = Inr fs' \<Longrightarrow> grew fs fs' p \<and> is_dir fs' p"
proof -
  assume a: "mkdir_noparents fs p ok = Inr fs'"
  show ?thesis
  proof (cases "os_mkdir fs p")
    case (Inr fs1)
    with a have "fs' = fs1" by (simp add: mkdir_noparents_def)
    with Inr show ?thesis by (simp add: os_mkdir_grew)
  next
    case (Inl e)
    with a have "fs' = fs \<and> is_dir fs p"
      by (cases e) (auto simp: mkdir_noparents_def split: if_splits)
    then show ?thesis by (simp add: grew_refl)
  qed
qed

lemma mkdir_rev_grew:
  "mkdir_rev fs rp ok = Inr fs' \<Longrightarrow> grew fs fs' (rev rp) \<and> is_dir fs' (rev rp)"
proof (induction rp arbitrary: fs fs' ok)
  case Nil
  then show ?case by (auto simp: grew_refl is_dir_def split: if_splits)
next
  case (Cons x rp)
  let ?p = "rev (x # rp)"
  show ?case
  proof (cases "os_mkdir fs ?p")
    case (Inr fs1)
    with Cons.prems have "fs' = fs1" by simp
    with Inr show ?thesis by (simp add: os_mkdir_grew)
  next
    case (Inl e)
    show ?thesis
    proof (cases "\<exists>y. e = FileNotFoundError y")
      case True
      then obtain y where e: "e = FileNotFoundError y" by blast
      with Inl Cons.prems obtain fs1 where
        r: "mkdir_rev fs rp True = Inr fs1" and n: "mkdir_noparents fs1 ?p ok = Inr fs'"
        by (auto split: sum.splits)
      from Cons.IH [OF r] have g1: "grew fs fs1 (rev rp)" by simp
      from mkdir_noparents_grew [OF n] have g2: "grew fs1 fs' ?p" and d: "is_dir fs' ?p"
        by simp_all
      have "prefix (rev rp) ?p" by simp
      with g1 g2 have "grew fs fs' ?p" by (rule grew_trans)
      with d show ?thesis by simp
    next
      case False
      with Inl Cons.prems have "fs' = fs \<and> is_dir fs ?p"
        by (cases e) (auto split: if_splits)
      then show ?thesis by (simp add: grew_refl)
    qed
  qed
qed

lemma mkdir_parents_grew:
  "mkdir_parents fs p ok = Inr fs' \<Longrightarrow> grew fs fs' p \<and> is_dir fs' p"
  using mkdir_rev_grew [of fs "rev p" ok fs'] by (simp add: mkdir_parents_def)

lemma not_file_exists_is_dir: "\<not> is_file fs p \<Longrightarrow> path_exists fs p \<Longrightarrow> is_dir fs p"
  by (auto simp: is_file_def path_exists_def is_dir_def split: option.splits node.splits)

lemma mkdir_rev_ok:
  "list_all (\<lambda>q. \<not> is_file fs q) (prefixes (rev rp)) \<Longrightarrow>
   ok \<or> \<not> path_exists fs (rev rp) \<Longrightarrow> \<exists>fs'. mkdir_rev fs rp ok = Inr fs'"
proof (induction rp arbitrary: fs ok)
  case Nil
  then show ?case by (simp add: path_exists_def)
next
  case (Cons x rp)
  let ?p = "rev (x # rp)"
  from Cons.prems(1) have above: "list_all (\<lambda>q. \<not> is_file fs q) (prefixes (rev rp))"
    and nf: "\<not> is_file fs ?p" by simp_all
  have par: "butlast ?p = rev rp" by simp
  show ?case
  proof (cases "path_exists fs ?p")
    case True
    with Cons.prems(2) have ok by simp
    moreover from nf True have "is_dir fs ?p" by (rule not_file_exists_is_dir)
    moreover from True have "os_mkdir fs ?p = Inl FileExistsError" by (simp add: os_mkdir_def)
    ultimately show ?thesis by simp
  next
    case False
    have npar: "\<not> is_file fs (rev rp)"
      using above by (simp add: list_all_iff)
    show ?thesis
    proof (cases "path_exists fs (rev rp)")
      case True
      with npar have "is_dir fs (rev rp)" by (rule not_file_exists_is_dir)
      with False par obtain fs1 where "os_mkdir fs ?p = Inr fs1"
        using os_mkdir_ok [of fs ?p] by auto
      then show ?thesis by simp
    next
      case np: False
      with False par have o: "os_mkdir fs ?p = Inl (FileNotFoundError (NoSuchFile ?p))"
        by (simp add: os_mkdir_def path_exists_def)
      from Cons.IH [OF above, of True] obtain fs1 where r: "mkdir_rev fs rp True = Inr fs1"
        by auto
      from mkdir_rev_grew [OF r] have g: "grew fs fs1 (rev rp)" and d: "is_dir fs1 (rev rp)"
        by simp_all
      have "\<not> prefix ?p (rev rp)"
        by (auto dest: prefix_length_le)
      moreover from g have "lookup fs1 ?p = lookup fs ?p
          \<or> (lookup fs ?p = None \<and> lookup fs1 ?p = Some Dir \<and> prefix ?p (rev rp))"
        unfolding grew_def by (rule spec)
      ultimately have "\<not> path_exists fs1 ?p"
        using False by (auto simp: path_exists_def)
      with d par obtain fs2 where "os_mkdir fs1 ?p = Inr fs2"
        using os_mkdir_ok [of fs1 ?p] by auto
      with o r show ?thesis by (simp add: mkdir_noparents_def)
    qed
  qed
qed

lemma mkdir_parents_ok:
  "no_file_above fs p \<Longrightarrow> ok \<or> \<not> path_exists fs p \<Longrightarrow> \<exists>fs'. mkdir_parents fs p ok = Inr fs'"
  using mkdir_rev_ok [of fs "rev p" ok] by (simp add: mkdir_parents_def no_file_above_def)

lemma mkdir_parents_existing:
  "is_dir fs p \<Longrightarrow> mkdir_parents fs p True = Inr fs"
  by (cases "rev p")
     (auto simp: mkdir_parents_def os_mkdir_def path_exists_def is_dir_def rev_swap)

subsection \<open>Writing and copying\<close>

lemma write_file_effect:
  "write_file fs p c = Inr fs' \<Longrightarrow>
     lookup fs p \<noteq> Some Dir
     \<and> (\<forall>q. lookup fs' q = (if q = p then Some (File c) else lookup fs q))"
  by (auto simp: write_file_def lookup_put split: option.splits node.splits)


lemma write_file_ok:
  "is_dir fs (butlast p) \<Longrightarrow> \<not> is_dir fs p \<Longrightarrow> \<exists>fs'. write_file fs p c = Inr fs'"
  by (auto simp: write_file_def is_dir_def split: option.splits node.splits)


lemma copy2_file:
  "lookup fs src = Some (File c) \<Longrightarrow> src \<noteq> dst \<Longrightarrow> copy2 fs src dst = write_file fs dst c"
  by (simp add: copy2_def)

subsection \<open>The manifest\<close>

text \<open>
  C3. A description of more than 250 characters is stored as its first 247 characters and
  three dots, 250 characters in all, and the only effect is one warning in the log;
  \<open>create_manifest\<close> has no failing result. A description of at most 250 characters
  is stored as it is and nothing is printed.
\<close>

theorem create_manifest_description:
  "(length d > 250 \<longrightarrow>
      map_of (fst (create_manifest pk n d u deps ns w)) ''description''
        = Some (JStr (take 247 d @ ''...''))
      \<and> length (take 247 d @ ''...'') = 250
      \<and> snd (create_manifest pk n d u deps ns w) = say [WarnDescriptionTruncated] w)
   \<and> (length d \<le> 250 \<longrightarrow>
      map_of (fst (create_manifest pk n d u deps ns w)) ''description'' = Some (JStr d)
      \<and> snd (create_manifest pk n d u deps ns w) = w)"
  by (simp add: create_manifest_def)

theorem create_manifest_description_witness:
  "length (replicate 251 CHR ''a'') > 250
   \<and> map_of (fst (create_manifest demo_packager ''N'' (replicate 251 CHR ''a'') ''u'' []
                    ''ns'' demo_world)) ''description''
       = Some (JStr (replicate 247 CHR ''a'' @ ''...''))
   \<and> w_out (snd (create_manifest demo_packager ''N'' (replicate 251 CHR ''a'') ''u'' []
                    ''ns'' demo_world))
       = [WarnDescriptionTruncated]
   \<and> length ''short'' \<le> 250
   \<and> map_of (fst (create_manifest demo_packager ''N'' ''short'' ''u'' [] ''ns'' demo_world))
         ''description''
       = Some (JStr ''short'')
   \<and> snd (create_manifest demo_packager ''N'' ''short'' ''u'' [] ''ns'' demo_world)
       = demo_world"
  using create_manifest_description
          [of "replicate 251 CHR ''a''" demo_packager "''N''" "''u''" "[]" "''ns''" demo_world]
        create_manifest_description
          [of "''short''" demo_packager "''N''" "''u''" "[]" "''ns''" demo_world]
  by (simp add: say_def demo_world_def)

text \<open>
  C10. The namespace argument of \<open>create_manifest\<close> has no effect: two calls that
  differ only in it return the same manifest (and the same log), and the manifest's keys
  are name, version_number, website_url, description and dependencies, in this order.
\<close>

theorem create_manifest_ignores_namespace:
  "create_manifest pk n d u deps ns1 w = create_manifest pk n d u deps ns2 w
   \<and> map fst (fst (create_manifest pk n d u deps ns1 w))
       = [''name'', ''version_number'', ''website_url'', ''description'', ''dependencies'']"
  by (simp add: create_manifest_def)

subsection \<open>Missing required files\<close>

lemma join_two_three:
  "join sep [a, b] = a @ sep @ b"
  "join sep [a, b, c] = a @ sep @ b @ sep @ c"
  by simp_all

text \<open>
  C1. When one of manifest.json, icon.png and README.md is absent from the directory given
  to \<open>create_package\<close>, the call leaves with \<open>SystemExit 1\<close> after three lines:
  the absent names, in the order manifest.json, icon.png, README.md and separated by a
  comma and a space (the text is given for each of the seven cases), then the directory,
  then the request to add the files. The list of absent names is the three names with the
  present ones left out. The file system is the one before the call, so the staging
  directory is still there. When the manifest and the icon are present the list is
  README.md alone.
\<close>

theorem create_package_missing_files:
  assumes "\<exists>r. r \<in> set REQUIRED_FILES \<and> \<not> path_exists (w_fs w) (path_div d r)"
  shows "create_package pk d w =
           (Inl (SystemExit 1),
            say [ErrMissingRequired
                   (if \<not> path_exists (w_fs w) (path_div d ''manifest.json'') then
                      (if \<not> path_exists (w_fs w) (path_div d ''icon.png'') then
                         (if \<not> path_exists (w_fs w) (path_div d ''README.md'')
                          then ''manifest.json, icon.png, README.md''
                          else ''manifest.json, icon.png'')
                       else
                         (if \<not> path_exists (w_fs w) (path_div d ''README.md'')
                          then ''manifest.json, README.md''
                          else ''manifest.json''))
                    else
                      (if \<not> path_exists (w_fs w) (path_div d ''icon.png'') then
                         (if \<not> path_exists (w_fs w) (path_div d ''README.md'')
                          then ''icon.png, README.md''
                          else ''icon.png'')
                       else ''README.md'')),
                 PackageIncomplete d, PleaseAddMissing] w)
         \<and> missing_files (w_fs w) d =
             (if path_exists (w_fs w) (path_div d ''manifest.json'') then []
              else [''manifest.json''])
             @ (if path_exists (w_fs w) (path_div d ''icon.png'') then [] else [''icon.png''])
             @ (if path_exists (w_fs w) (path_div d ''README.md'') then [] else [''README.md''])
         \<and> w_fs (snd (create_package pk d w)) = w_fs w
         \<and> w_out (snd (create_package pk d w)) =
             w_out w @ [ErrMissingRequired (join '', '' (missing_files (w_fs w) d)),
                        PackageIncomplete d, PleaseAddMissing]
         \<and> is_dir (w_fs (snd (create_package pk d w))) d = is_dir (w_fs w) d
         \<and> (path_exists (w_fs w) (path_div d ''manifest.json'')
              \<and> path_exists (w_fs w) (path_div d ''icon.png'')
            \<longrightarrow> missing_files (w_fs w) d = [''README.md''])"
proof -
  have l: "missing_files (w_fs w) d =
             (if path_exists (w_fs w) (path_div d ''manifest.json'') then []
              else [''manifest.json''])
             @ (if path_exists (w_fs w) (path_div d ''icon.png'') then [] else [''icon.png''])
             @ (if path_exists (w_fs w) (path_div d ''README.md'') then [] else [''README.md''])"
    by (simp add: missing_files_def REQUIRED_FILES_def)
  from assms have m: "missing_files (w_fs w) d \<noteq> []"
    by (auto simp: missing_files_def filter_empty_conv)
  then have r: "create_package pk d w =
           (Inl (SystemExit 1),
            say [ErrMissingRequired (join '', '' (missing_files (w_fs w) d)),
                 PackageIncomplete d, PleaseAddMissing] w)"
    by (simp add: create_package_def Let_def)
  have t: "join '', '' (missing_files (w_fs w) d) =
             (if \<not> path_exists (w_fs w) (path_div d ''manifest.json'') then
                (if \<not> path_exists (w_fs w) (path_div d ''icon.png'') then
                   (if \<not> path_exists (w_fs w) (path_div d ''README.md'')
                    then ''manifest.json, icon.png, README.md''
                    else ''manifest.json, icon.png'')
                 else
                   (if \<not> path_exists (w_fs w) (path_div d ''README.md'')
                    then ''manifest.json, README.md''
                    else ''manifest.json''))
              else
                (if \<not> path_exists (w_fs w) (path_div d ''icon.png'') then
                   (if \<not> path_exists (w_fs w) (path_div d ''README.md'')
                    then ''icon.png, README.md''
                    else ''icon.png'')
                 else ''README.md''))"
    using m unfolding l
    by (cases "path_exists (w_fs w) (path_div d ''manifest.json'')";
        cases "path_exists (w_fs w) (path_div d ''icon.png'')";
        cases "path_exists (w_fs w) (path_div d ''README.md'')")
       (simp_all add: join_two_three)
  have k: "path_exists (w_fs w) (path_div d ''manifest.json'') \<Longrightarrow>
             path_exists (w_fs w) (path_div d ''icon.png'') \<Longrightarrow>
             missing_files (w_fs w) d = [''README.md'']"
    using m unfolding l
    by (cases "path_exists (w_fs w) (path_div d ''README.md'')") simp_all
  have o: "w_out (snd (create_package pk d w)) =
             w_out w @ [ErrMissingRequired (join '', '' (missing_files (w_fs w) d)),
                        PackageIncomplete d, PleaseAddMissing]"
    unfolding r by (simp add: say_def)
  have f: "w_fs (snd (create_package pk d w)) = w_fs w"
    unfolding r by (simp add: say_def)
  show ?thesis
    using r l k o f unfolding t by simp
qed

lemma staging_lookups [simp]:
  "path_div demo_staging ''manifest.json'' = demo_staging @ [''manifest.json'']"
  "path_div demo_staging ''icon.png'' = demo_staging @ [''icon.png'']"
  "path_div demo_staging ''README.md'' = demo_staging @ [''README.md'']"
  by (simp_all add: path_div_def)

theorem create_package_missing_files_witness:
  "\<not> path_exists (w_fs no_readme_world) (path_div demo_staging ''README.md'')
   \<and> fst (create_package demo_packager demo_staging no_readme_world) = Inl (SystemExit 1)
   \<and> w_out (snd (create_package demo_packager demo_staging no_readme_world))
       = [ErrMissingRequired ''README.md'', PackageIncomplete demo_staging, PleaseAddMissing]
   \<and> is_dir (w_fs (snd (create_package demo_packager demo_staging no_readme_world)))
        demo_staging
   \<and> \<not> path_exists (w_fs manifest_only_world) (path_div demo_staging ''icon.png'')
   \<and> \<not> path_exists (w_fs manifest_only_world) (path_div demo_staging ''README.md'')
   \<and> create_package demo_packager demo_staging manifest_only_world
       = (Inl (SystemExit 1),
          say [ErrMissingRequired ''icon.png, README.md'', PackageIncomplete demo_staging,
               PleaseAddMissing] manifest_only_world)
   \<and> missing_files (w_fs manifest_only_world) demo_staging = [''icon.png'', ''README.md'']
   \<and> is_dir (w_fs (snd (create_package demo_packager demo_staging manifest_only_world)))
        demo_staging
   \<and> create_package demo_packager demo_staging empty_staging_world
       = (Inl (SystemExit 1),
          say [ErrMissingRequired ''manifest.json, icon.png, README.md'',
               PackageIncomplete demo_staging, PleaseAddMissing] empty_staging_world)
   \<and> missing_files (w_fs empty_staging_world) demo_staging
       = [''manifest.json'', ''icon.png'', ''README.md'']
   \<and> is_dir (w_fs (snd (create_package demo_packager demo_staging empty_staging_world)))
        demo_staging"
proof -
  have a: "\<not> path_exists (w_fs no_readme_world) (path_div demo_staging ''README.md'')"
      "path_exists (w_fs no_readme_world) (path_div demo_staging ''manifest.json'')"
      "path_exists (w_fs no_readme_world) (path_div demo_staging ''icon.png'')"
      "is_dir (w_fs no_readme_world) demo_staging"
    by (simp_all add: path_exists_def is_dir_def lookup_def no_readme_world_def
        demo_staging_def path_div_def)
  have b: "\<not> path_exists (w_fs manifest_only_world) (path_div demo_staging ''README.md'')"
      "path_exists (w_fs manifest_only_world) (path_div demo_staging ''manifest.json'')"
      "\<not> path_exists (w_fs manifest_only_world) (path_div demo_staging ''icon.png'')"
      "is_dir (w_fs manifest_only_world) demo_staging"
    by (simp_all add: path_exists_def is_dir_def lookup_def manifest_only_world_def
        demo_staging_def path_div_def)
  have c: "\<not> path_exists (w_fs empty_staging_world) (path_div demo_staging ''README.md'')"
      "\<not> path_exists (w_fs empty_staging_world) (path_div demo_staging ''manifest.json'')"
      "\<not> path_exists (w_fs empty_staging_world) (path_div demo_staging ''icon.png'')"
      "is_dir (w_fs empty_staging_world) demo_staging"
    by (simp_all add: path_exists_def is_dir_def lookup_def empty_staging_world_def
        demo_staging_def path_div_def)
  have ha: "\<exists>r. r \<in> set REQUIRED_FILES
             \<and> \<not> path_exists (w_fs no_readme_world) (path_div demo_staging r)"
    using a(1) by (intro exI [of _ "''README.md''"]) (simp add: REQUIRED_FILES_def)
  have hb: "\<exists>r. r \<in> set REQUIRED_FILES
             \<and> \<not> path_exists (w_fs manifest_only_world) (path_div demo_staging r)"
    using b(1) by (intro exI [of _ "''README.md''"]) (simp add: REQUIRED_FILES_def)
  have hc: "\<exists>r. r \<in> set REQUIRED_FILES
             \<and> \<not> path_exists (w_fs empty_staging_world) (path_div demo_staging r)"
    using c(1) by (intro exI [of _ "''README.md''"]) (simp add: REQUIRED_FILES_def)
  have wa: "w_out no_readme_world = []"
    by (simp add: no_readme_world_def)
  from create_package_missing_files [OF ha, of demo_packager]
       create_package_missing_files [OF hb, of demo_packager]
       create_package_missing_files [OF hc, of demo_packager]
       a b c wa
  show ?thesis by (simp add: say_def)
qed

subsection \<open>Icon validation\<close>

lemma icon_world_sel [simp]:
  "w_fs (icon_world b) =
     [([''w''], Dir), ([''w'', ''icon.png''], File (Image ''PNG'' 256 256)),
      ([''w'', ''small.png''], File (Image ''PNG'' 64 64)),
      ([''w'', ''icon.jpg''], File (Image ''JPEG'' 256 256))]"
  "w_pil (icon_world b) = b"
  "w_out (icon_world b) = []"
  by (simp_all add: icon_world_def)

text \<open>
  C4. \<open>validate_icon\<close> answers false, with a warning, for a path that does not exist.
  For a path that exists, with the image library present and the file opened as an image,
  the answer is true exactly when the size is 256 by 256 and the format is PNG. For a path
  that exists, with the image library absent, the answer is true and the two lines about
  the missing library are printed. The function has no failing result.
\<close>

theorem validate_icon_contract:
  "(\<not> path_exists (w_fs w) p \<longrightarrow>
      validate_icon pk p w = (False, say [WarnIconNotFound p] w))
   \<and> (path_exists (w_fs w) p \<and> w_pil w \<and> image_open (w_fs w) p = Inr (fmt, wd, ht) \<longrightarrow>
        fst (validate_icon pk p w) = (wd = 256 \<and> ht = 256 \<and> fmt = ''PNG''))
   \<and> (path_exists (w_fs w) p \<and> \<not> w_pil w \<longrightarrow>
        validate_icon pk p w = (True, say [WarnPILMissing, HintInstallPillow] w))"
  by (auto simp: validate_icon_def ICON_SIZE_def)

theorem validate_icon_contract_witness:
  "\<not> path_exists (w_fs (icon_world True)) [''w'', ''none.png'']
   \<and> fst (validate_icon demo_packager [''w'', ''none.png''] (icon_world True)) = False
   \<and> path_exists (w_fs (icon_world True)) [''w'', ''icon.png'']
   \<and> fst (validate_icon demo_packager [''w'', ''icon.png''] (icon_world True)) = True
   \<and> fst (validate_icon demo_packager [''w'', ''small.png''] (icon_world True)) = False
   \<and> fst (validate_icon demo_packager [''w'', ''icon.jpg''] (icon_world True)) = False
   \<and> \<not> w_pil (icon_world False)
   \<and> fst (validate_icon demo_packager [''w'', ''small.png''] (icon_world False)) = True
   \<and> w_out (snd (validate_icon demo_packager [''w'', ''small.png''] (icon_world False)))
       = [WarnPILMissing, HintInstallPillow]"
proof -
  have e: "\<not> path_exists (w_fs (icon_world True)) [''w'', ''none.png'']"
          "path_exists (w_fs (icon_world True)) [''w'', ''icon.png'']"
          "path_exists (w_fs (icon_world True)) [''w'', ''small.png'']"
          "path_exists (w_fs (icon_world True)) [''w'', ''icon.jpg'']"
          "path_exists (w_fs (icon_world False)) [''w'', ''small.png'']"
    by (simp_all add: path_exists_def lookup_def)
  have o: "image_open (w_fs (icon_world True)) [''w'', ''icon.png''] = Inr (''PNG'', 256, 256)"
          "image_open (w_fs (icon_world True)) [''w'', ''small.png''] = Inr (''PNG'', 64, 64)"
          "image_open (w_fs (icon_world True)) [''w'', ''icon.jpg''] = Inr (''JPEG'', 256, 256)"
    by (simp_all add: image_open_def lookup_def)
  show ?thesis
    using e o
      validate_icon_contract
        [where w = "icon_world True" and p = "[''w'', ''none.png'']" and pk = demo_packager]
      validate_icon_contract
        [where w = "icon_world True" and p = "[''w'', ''icon.png'']" and fmt = "''PNG''"
           and wd = 256 and ht = 256 and pk = demo_packager]
      validate_icon_contract
        [where w = "icon_world True" and p = "[''w'', ''small.png'']" and fmt = "''PNG''"
           and wd = 64 and ht = 64 and pk = demo_packager]
      validate_icon_contract
        [where w = "icon_world True" and p = "[''w'', ''icon.jpg'']" and fmt = "''JPEG''"
           and wd = 256 and ht = 256 and pk = demo_packager]
      validate_icon_contract
        [where w = "icon_world False" and p = "[''w'', ''small.png'']" and pk = demo_packager]
    by (simp add: say_def)
qed

subsection \<open>The default variant\<close>

text \<open>
  C9. With no flag on the command line, the variant that \<open>parse_args\<close> hands over is
  the one-element list holding IL2CPP-BepInEx6, not that string, and the build archive is
  looked for under a name with the list's brackets and quotes in it.
\<close>

theorem default_variant_is_a_list:
  "(case parse_args [''w''] default_cli of
      Inl e \<Rightarrow> False
    | Inr a \<Rightarrow>
        a_variant a = PyList [PyStr ''IL2CPP-BepInEx6'']
        \<and> a_variant a \<noteq> PyStr ''IL2CPP-BepInEx6''
        \<and> build_zip (make_packager a)
            = [''w'', ''Output'',
               ''MLLoader-['' @ [CHR 0x27] @ ''IL2CPP-BepInEx6'' @ [CHR 0x27] @ '']-v2.1.0.zip'']
        \<and> build_zip (make_packager a)
            \<noteq> [''w'', ''Output'', ''MLLoader-IL2CPP-BepInEx6-v2.1.0.zip''])"
  by (simp add: parse_args_def default_cli_def build_zip_def make_packager_def path_div_def
      py_repr_str_def py_escape_char_def path_parts_single Let_def)

subsection \<open>Walking the staging directory\<close>

lemma set_map_filter: "set (List.map_filter f xs) = {y. \<exists>x \<in> set xs. f x = Some y}"
  by (induction xs) (auto split: option.splits)

lemma in_map_filter: "x \<in> set xs \<Longrightarrow> f x = Some y \<Longrightarrow> y \<in> set (List.map_filter f xs)"
  by (auto simp: set_map_filter)

lemma distinct_map_filter:
  assumes "distinct xs"
    and "\<And>x y a b. x \<in> set xs \<Longrightarrow> y \<in> set xs \<Longrightarrow> f x = Some a \<Longrightarrow> f y = Some b \<Longrightarrow>
           g a = g b \<Longrightarrow> x = y"
  shows "distinct (map g (List.map_filter f xs))"
  using assms
proof (induction xs)
  case Nil
  then show ?case by simp
next
  case (Cons x xs)
  have ih: "distinct (map g (List.map_filter f xs))"
    using Cons.prems by (intro Cons.IH) auto
  show ?case
  proof (cases "f x")
    case None
    with ih show ?thesis by simp
  next
    case (Some a)
    have "g a \<notin> g ` set (List.map_filter f xs)"
    proof
      assume "g a \<in> g ` set (List.map_filter f xs)"
      then obtain b y where y: "y \<in> set xs" and b: "f y = Some b" and e: "g a = g b"
        by (auto simp: set_map_filter)
      from Cons.prems(2) [of x y a b] y b e Some have "x = y" by simp
      with y Cons.prems(1) show False by simp
    qed
    with ih Some show ?thesis by simp
  qed
qed

lemma distinct_walk: "distinct (map fst (walk fs p))"
  unfolding walk_def
proof (rule distinct_map_filter)
  show "distinct (remdups (map fst fs))" by simp
next
  fix x y :: path and a b :: "path \<times> content"
  assume fx: "(case lookup fs x of
               Some (File c) \<Rightarrow> if reachable fs p x then Some (drop (length p) x, c) else None
             | _ \<Rightarrow> None) = Some a"
    and fy: "(case lookup fs y of
               Some (File c) \<Rightarrow> if reachable fs p y then Some (drop (length p) y, c) else None
             | _ \<Rightarrow> None) = Some b"
    and e: "fst a = fst b"
  from fx have "reachable fs p x" and ax: "fst a = drop (length p) x"
    by (auto split: option.splits node.splits if_splits)
  then have x: "x = p @ fst a"
    by (auto simp: reachable_def strict_prefix_def prefix_def)
  from fy have "reachable fs p y" and ay: "fst b = drop (length p) y"
    by (auto split: option.splits node.splits if_splits)
  then have y: "y = p @ fst b"
    by (auto simp: reachable_def strict_prefix_def prefix_def)
  from x y e show "x = y" by simp
qed

lemma prefix_take: "prefix d q \<Longrightarrow> length d \<le> k \<Longrightarrow> prefix d (take k q)"
  by (auto simp: prefix_def)

lemma reachable_cong:
  assumes "\<And>q. prefix d q \<Longrightarrow> lookup fs1 q = lookup fs q"
  shows "reachable fs1 d q = reachable fs d q"
proof (cases "strict_prefix d q")
  case True
  then have p: "prefix d q" by (simp add: strict_prefix_def)
  have "\<And>k. k \<in> set [length d ..< length q] \<Longrightarrow> is_dir fs1 (take k q) = is_dir fs (take k q)"
    using assms prefix_take [OF p] by (simp add: is_dir_def)
  then show ?thesis by (simp add: reachable_def list_all_iff)
next
  case False
  then show ?thesis by (simp add: reachable_def)
qed

lemma set_walk:
  "set (walk fs p) = {(rel, c). reachable fs p (p @ rel) \<and> lookup fs (p @ rel) = Some (File c)}"
proof (intro set_eqI iffI)
  fix e
  assume "e \<in> set (walk fs p)"
  then obtain q where q: "q \<in> set (map fst fs)"
    and f: "(case lookup fs q of
               Some (File c) \<Rightarrow> if reachable fs p q then Some (drop (length p) q, c) else None
             | _ \<Rightarrow> None) = Some e"
    by (auto simp: walk_def set_map_filter)
  from f obtain c where l: "lookup fs q = Some (File c)" and r: "reachable fs p q"
    and e: "e = (drop (length p) q, c)"
    by (auto split: option.splits node.splits if_splits)
  from r obtain rel where "q = p @ rel"
    by (auto simp: reachable_def strict_prefix_def prefix_def)
  with l r e show "e \<in> {(rel, c). reachable fs p (p @ rel) \<and> lookup fs (p @ rel) = Some (File c)}"
    by simp
next
  fix e
  assume "e \<in> {(rel, c). reachable fs p (p @ rel) \<and> lookup fs (p @ rel) = Some (File c)}"
  then obtain rel c where e: "e = (rel, c)" and r: "reachable fs p (p @ rel)"
    and l: "lookup fs (p @ rel) = Some (File c)" by auto
  from l have "p @ rel \<in> set (map fst fs)" by (rule lookup_in_keys)
  then have k: "p @ rel \<in> set (remdups (map fst fs))" by simp
  have fe: "(case lookup fs (p @ rel) of
               Some (File c) \<Rightarrow>
                 if reachable fs p (p @ rel) then Some (drop (length p) (p @ rel), c) else None
             | _ \<Rightarrow> None) = Some e"
    using l r e by simp
  show "e \<in> set (walk fs p)"
    unfolding walk_def by (rule in_map_filter [OF k]) (rule fe)
qed

lemma reachable_iff:
  "reachable fs p (p @ rel) \<longleftrightarrow> rel \<noteq> [] \<and> (\<forall>k<length rel. is_dir fs (p @ take k rel))"
proof -
  have "(\<forall>k\<in>{length p..<length p + length rel}. is_dir fs (take k (p @ rel)))
          \<longleftrightarrow> (\<forall>j<length rel. is_dir fs (p @ take j rel))"
  proof (intro iffI allI ballI impI)
    fix j
    assume a: "\<forall>k\<in>{length p..<length p + length rel}. is_dir fs (take k (p @ rel))"
      and j: "j < length rel"
    from j have "length p + j \<in> {length p..<length p + length rel}" by simp
    with a have "is_dir fs (take (length p + j) (p @ rel))" by blast
    then show "is_dir fs (p @ take j rel)" by simp
  next
    fix k
    assume a: "\<forall>j<length rel. is_dir fs (p @ take j rel)"
      and k: "k \<in> {length p..<length p + length rel}"
    from k have "k - length p < length rel" by auto
    with a have "is_dir fs (p @ take (k - length p) rel)" by blast
    moreover from k have "take k (p @ rel) = p @ take (k - length p) rel" by simp
    ultimately show "is_dir fs (take k (p @ rel))" by simp
  qed
  then show ?thesis by (simp add: reachable_def list_all_iff strict_prefix_def)
qed

subsection \<open>The archive\<close>

lemma missing_files_none:
  "path_exists fs (path_div d ''manifest.json'') \<Longrightarrow> path_exists fs (path_div d ''icon.png'') \<Longrightarrow>
   path_exists fs (path_div d ''README.md'') \<Longrightarrow> missing_files fs d = []"
  by (simp add: missing_files_def REQUIRED_FILES_def)

lemma create_package_success:
  assumes req: "path_exists (w_fs w) (path_div d ''manifest.json'')"
      "path_exists (w_fs w) (path_div d ''icon.png'')"
      "path_exists (w_fs w) (path_div d ''README.md'')"
    and dir: "is_dir (w_fs w) d"
    and par: "is_dir (w_fs w) (butlast (output_path pk))"
    and nd: "\<not> is_dir (w_fs w) (output_path pk)"
    and out: "\<not> prefix d (output_path pk)"
  shows "\<exists>es w'. create_package pk d w = (Inr (output_path pk), w')
           \<and> lookup (w_fs w') (output_path pk) = Some (File (Archive es))
           \<and> distinct (map fst es)
           \<and> set es = {(rel, c). rel \<noteq> []
                                  \<and> (\<forall>k<length rel. is_dir (w_fs w) (d @ take k rel))
                                  \<and> lookup (w_fs w) (d @ rel) = Some (File c)}
           \<and> (\<forall>q. prefix d q \<longrightarrow> lookup (w_fs w') q = None)
           \<and> (\<forall>q. \<not> prefix d q \<longrightarrow> q \<noteq> output_path pk \<longrightarrow>
                  lookup (w_fs w') q = lookup (w_fs w) q)"
proof -
  let ?o = "output_path pk"
  let ?fs = "w_fs w"
  have m: "missing_files ?fs d = []" using req by (rule missing_files_none)
  from write_file_ok [OF par nd] obtain fs1 where w1: "write_file ?fs ?o (Archive []) = Inr fs1"
    by blast
  from write_file_effect [OF w1]
  have l1: "\<And>q. lookup fs1 q = (if q = ?o then Some (File (Archive [])) else lookup ?fs q)"
    by simp
  have o0: "?o \<noteq> []" using nd by (auto simp: is_dir_def)
  have d0: "d \<noteq> []" using out by auto
  have do: "d \<noteq> ?o" using out by auto
  let ?es = "walk fs1 d"
  let ?fs2 = "put fs1 ?o (File (Archive ?es))"
  have l2: "\<And>q. lookup ?fs2 q = (if q = ?o then Some (File (Archive ?es)) else lookup ?fs q)"
    using o0 by (simp add: lookup_put l1)
  have "lookup ?fs2 d = Some Dir" using dir do by (simp add: l2 is_dir_def)
  then have rm: "rmtree ?fs2 d = Inr (remove_tree ?fs2 d)" by (simp add: rmtree_def)
  let ?w' = "(say (map (\<lambda>m. Added (fst m)) ?es)
               (say [CreatingPackage (output_name pk)] w\<lparr>w_fs := ?fs2\<rparr>))\<lparr>w_fs := remove_tree ?fs2 d\<rparr>"
  have res: "create_package pk d w = (Inr ?o, ?w')"
    using m w1 rm by (simp add: create_package_def Let_def say_def)
  have fs': "w_fs ?w' = remove_tree ?fs2 d" by simp
  have a: "lookup (w_fs ?w') ?o = Some (File (Archive ?es))"
    unfolding fs' using out o0 by (simp add: lookup_remove_tree l2)
  have "\<And>q. prefix d q \<Longrightarrow> lookup fs1 q = lookup ?fs q"
    using out by (auto simp: l1)
  then have rc: "\<And>q. reachable fs1 d q = reachable ?fs d q"
    by (rule reachable_cong)
  have no: "\<And>rel. d @ rel \<noteq> ?o" using out by (metis prefixI)
  have "set ?es = {(rel, c). reachable ?fs d (d @ rel) \<and> lookup ?fs (d @ rel) = Some (File c)}"
    by (simp add: set_walk rc l1 no)
  then have b: "set ?es = {(rel, c). rel \<noteq> []
                                  \<and> (\<forall>k<length rel. is_dir ?fs (d @ take k rel))
                                  \<and> lookup ?fs (d @ rel) = Some (File c)}"
    by (simp add: reachable_iff)
  have c: "\<forall>q. prefix d q \<longrightarrow> lookup (w_fs ?w') q = None"
    unfolding fs' using d0 by (auto simp: lookup_remove_tree)
  have e: "\<forall>q. \<not> prefix d q \<longrightarrow> q \<noteq> ?o \<longrightarrow> lookup (w_fs ?w') q = lookup ?fs q"
    unfolding fs' by (simp add: lookup_remove_tree l2)
  have di: "distinct (map fst ?es)" by (rule distinct_walk)
  from res a di b c e show ?thesis by blast
qed

lemma create_package_failure_keeps:
  "create_package pk d w = (Inl e, w') \<Longrightarrow> is_dir (w_fs w') d = is_dir (w_fs w) d"
proof -
  assume r: "create_package pk d w = (Inl e, w')"
  show ?thesis
  proof (cases "missing_files (w_fs w) d = []")
    case False
    with r show ?thesis by (auto simp: create_package_def Let_def say_def)
  next
    case True
    show ?thesis
    proof (cases "write_file (w_fs w) (output_path pk) (Archive [])")
      case (Inl x)
      with r True show ?thesis by (auto simp: create_package_def Let_def say_def)
    next
      case (Inr fs1)
      let ?fs2 = "put fs1 (output_path pk) (File (Archive (walk fs1 d)))"
      from write_file_effect [OF Inr]
      have nd: "lookup (w_fs w) (output_path pk) \<noteq> Some Dir"
        and l1: "\<And>q. lookup fs1 q = (if q = output_path pk then Some (File (Archive [])) else lookup (w_fs w) q)"
        by simp_all
      from r True Inr have f: "w_fs w' = ?fs2"
        by (auto simp: create_package_def Let_def say_def split: sum.splits)
      have "is_dir ?fs2 d = is_dir (w_fs w) d"
        using nd by (auto simp: is_dir_def lookup_put l1)
      with f show ?thesis by simp
    qed
  qed
qed

lemma create_package_Inr:
  "create_package pk d w = (Inr p, w') \<Longrightarrow>
     p = output_path pk
     \<and> (\<exists>fs1. write_file (w_fs w) (output_path pk) (Archive []) = Inr fs1
          \<and> w_fs w' = remove_tree (put fs1 (output_path pk) (File (Archive (walk fs1 d)))) d)"
  by (auto simp: create_package_def Let_def say_def rmtree_def
      split: if_splits sum.splits option.splits node.splits)

text \<open>
  C2. Let the directory given to \<open>create_package\<close> be a directory that holds
  manifest.json, icon.png and README.md, let the archive's path be outside it, not a
  directory, and in a directory that exists. Then the call returns the archive's path; the
  archive is there afterwards, its entries have distinct names and are exactly the files
  under the staging directory (reached through directories only) with their paths relative
  to it and their contents; nothing is left at or below the staging directory; and every
  other path is as it was. Whenever \<open>create_package\<close> fails, with whatever error,
  the staging directory is a directory afterwards exactly if it was one before: success is
  the only way it goes. The archive's path is never inside the packager's own staging
  directory.
\<close>

theorem create_package_archives_staging:
  "(path_exists (w_fs w) (path_div d ''manifest.json'')
      \<and> path_exists (w_fs w) (path_div d ''icon.png'')
      \<and> path_exists (w_fs w) (path_div d ''README.md'')
      \<and> is_dir (w_fs w) d
      \<and> is_dir (w_fs w) (butlast (output_path pk))
      \<and> \<not> is_dir (w_fs w) (output_path pk)
      \<and> \<not> prefix d (output_path pk)
    \<longrightarrow> (\<exists>es w'. create_package pk d w = (Inr (output_path pk), w')
           \<and> lookup (w_fs w') (output_path pk) = Some (File (Archive es))
           \<and> distinct (map fst es)
           \<and> set es = {(rel, c). rel \<noteq> []
                                  \<and> (\<forall>k<length rel. is_dir (w_fs w) (d @ take k rel))
                                  \<and> lookup (w_fs w) (d @ rel) = Some (File c)}
           \<and> (\<forall>q. prefix d q \<longrightarrow> lookup (w_fs w') q = None)
           \<and> (\<forall>q. \<not> prefix d q \<longrightarrow> q \<noteq> output_path pk \<longrightarrow>
                  lookup (w_fs w') q = lookup (w_fs w) q)))
   \<and> (\<forall>e w'. create_package pk d w = (Inl e, w') \<longrightarrow>
         is_dir (w_fs w') d = is_dir (w_fs w) d)
   \<and> \<not> prefix (temp_dir pk) (output_path pk)"
  using create_package_success [of w d pk] create_package_failure_keeps [of pk d w]
    archive_outside_staging [of pk]
  by blast

theorem create_package_archives_staging_witness:
  "path_exists (w_fs staged_world) (path_div demo_staging ''manifest.json'')
   \<and> path_exists (w_fs staged_world) (path_div demo_staging ''icon.png'')
   \<and> path_exists (w_fs staged_world) (path_div demo_staging ''README.md'')
   \<and> is_dir (w_fs staged_world) demo_staging
   \<and> fst (create_package demo_packager demo_staging staged_world) = Inr demo_archive
   \<and> lookup (w_fs (snd (create_package demo_packager demo_staging staged_world))) demo_archive
       = Some (File (Archive
           [([''manifest.json''], Json []), ([''icon.png''], Image ''PNG'' 256 256),
            ([''README.md''], Data ''readme''), ([''BepInEx'', ''a.dll''], Data ''a''),
            ([''BepInEx'', ''b.dll''], Data ''b'')]))
   \<and> \<not> path_exists (w_fs (snd (create_package demo_packager demo_staging staged_world)))
         demo_staging
   \<and> \<not> path_exists (w_fs (snd (create_package demo_packager demo_staging staged_world)))
         (demo_staging @ [''BepInEx'', ''a.dll''])"
proof -
  have h: "path_exists (w_fs staged_world) (path_div demo_staging ''manifest.json'')"
      "path_exists (w_fs staged_world) (path_div demo_staging ''icon.png'')"
      "path_exists (w_fs staged_world) (path_div demo_staging ''README.md'')"
      "is_dir (w_fs staged_world) demo_staging"
      "is_dir (w_fs staged_world) (butlast (output_path demo_packager))"
      "\<not> is_dir (w_fs staged_world) (output_path demo_packager)"
      "\<not> prefix demo_staging (output_path demo_packager)"
    by code_simp+
  have o: "output_path demo_packager = demo_archive" by code_simp
  have e: "lookup (w_fs (snd (create_package demo_packager demo_staging staged_world)))
             demo_archive
       = Some (File (Archive
           [([''manifest.json''], Json []), ([''icon.png''], Image ''PNG'' 256 256),
            ([''README.md''], Data ''readme''), ([''BepInEx'', ''a.dll''], Data ''a''),
            ([''BepInEx'', ''b.dll''], Data ''b'')]))"
    by code_simp
  from create_package_archives_staging [of staged_world demo_staging demo_packager] h
  obtain es w' where r: "create_package demo_packager demo_staging staged_world
                           = (Inr (output_path demo_packager), w')"
    and "lookup (w_fs w') (output_path demo_packager) = Some (File (Archive es))"
    and n: "\<forall>q. prefix demo_staging q \<longrightarrow> lookup (w_fs w') q = None"
    by blast
  from n have "lookup (w_fs w') demo_staging = None"
    and "lookup (w_fs w') (demo_staging @ [''BepInEx'', ''a.dll'']) = None"
    by simp_all
  with r o e h show ?thesis by (simp add: path_exists_def)
qed

subsection \<open>The archive's name\<close>

text \<open>
  C5, as the claim states it, fails. With the namespace Team and the name Other, the
  archive \<open>create_package\<close> returns is still
  BepInEx-MelonLoader_Loader-IL2CPP-BepInEx6-2.1.0.zip: not the name the template gives for
  that namespace and name, and not a name that starts with the namespace.
\<close>

theorem archive_name_from_namespace_counterexample:
  "a_namespace team_args = ''Team''
   \<and> a_name team_args = ''Other''
   \<and> fst (create_package (make_packager team_args) demo_staging staged_world)
       = Inr [''w'', ''Thunderstore'', ''BepInEx-MelonLoader_Loader-IL2CPP-BepInEx6-2.1.0.zip'']
   \<and> last [''w'', ''Thunderstore'', ''BepInEx-MelonLoader_Loader-IL2CPP-BepInEx6-2.1.0.zip'']
       \<noteq> spec_archive_name (a_namespace team_args) (a_name team_args)
            (py_str (a_variant team_args)) (a_version team_args)
   \<and> \<not> prefix (a_namespace team_args)
         (last [''w'', ''Thunderstore'', ''BepInEx-MelonLoader_Loader-IL2CPP-BepInEx6-2.1.0.zip''])"
  by code_simp

text \<open>
  C5, amended. For a packager made from any arguments whose variant and version hold no
  slash, the path \<open>create_package\<close> returns is the thunderstore directory followed
  by BepInEx-MelonLoader_Loader-, the variant, a hyphen, the version and .zip: the
  organisation and the package identifier are fixed text, and neither the namespace nor the
  name enters. Unless that path is inside the staging directory, an archive is at it
  afterwards.
\<close>

theorem archive_name_fixed:
  assumes "create_package (make_packager a) d w = (Inr p, w')"
    and "CHR ''/'' \<notin> set (py_str (a_variant a))"
    and "CHR ''/'' \<notin> set (a_version a)"
  shows "p = a_thunderstore_dir a
             @ [''BepInEx-MelonLoader_Loader-'' @ py_str (a_variant a) @ ''-'' @ a_version a
                @ ''.zip'']
         \<and> (\<not> prefix d p \<longrightarrow> (\<exists>es. lookup (w_fs w') p = Some (File (Archive es))))"
proof -
  let ?pk = "make_packager a"
  from create_package_Inr [OF assms(1)] obtain fs1 where
    p: "p = output_path ?pk"
    and w1: "write_file (w_fs w) (output_path ?pk) (Archive []) = Inr fs1"
    and f: "w_fs w' = remove_tree (put fs1 (output_path ?pk) (File (Archive (walk fs1 d)))) d"
    by blast
  have "path_parts (output_name ?pk) = [output_name ?pk]"
    using assms(2,3) by (intro output_name_parts) (simp_all add: make_packager_def)
  then have n: "p = a_thunderstore_dir a
             @ [''BepInEx-MelonLoader_Loader-'' @ py_str (a_variant a) @ ''-'' @ a_version a
                @ ''.zip'']"
    unfolding p by (simp add: output_path_def path_div_def output_name_def make_packager_def)
  have "p \<noteq> []" using n by simp
  then have "\<not> prefix d p \<Longrightarrow> lookup (w_fs w') p = Some (File (Archive (walk fs1 d)))"
    unfolding f by (simp add: lookup_remove_tree lookup_put p)
  with n show ?thesis by blast
qed

theorem archive_name_fixed_witness:
  "CHR ''/'' \<notin> set (py_str (a_variant team_args))
   \<and> CHR ''/'' \<notin> set (a_version team_args)
   \<and> fst (create_package (make_packager team_args) demo_staging staged_world)
       = Inr [''w'', ''Thunderstore'', ''BepInEx-MelonLoader_Loader-IL2CPP-BepInEx6-2.1.0.zip'']
   \<and> is_file (w_fs (snd (create_package (make_packager team_args) demo_staging staged_world)))
        [''w'', ''Thunderstore'', ''BepInEx-MelonLoader_Loader-IL2CPP-BepInEx6-2.1.0.zip'']"
proof -
  have s: "CHR ''/'' \<notin> set (py_str (a_variant team_args))"
      "CHR ''/'' \<notin> set (a_version team_args)"
    by code_simp+
  have r: "fst (create_package (make_packager team_args) demo_staging staged_world)
       = Inr [''w'', ''Thunderstore'', ''BepInEx-MelonLoader_Loader-IL2CPP-BepInEx6-2.1.0.zip'']"
    by code_simp
  then have c: "create_package (make_packager team_args) demo_staging staged_world
       = (Inr [''w'', ''Thunderstore'', ''BepInEx-MelonLoader_Loader-IL2CPP-BepInEx6-2.1.0.zip''],
          snd (create_package (make_packager team_args) demo_staging staged_world))"
    by (metis prod.collapse)
  have np: "\<not> prefix demo_staging
              [''w'', ''Thunderstore'', ''BepInEx-MelonLoader_Loader-IL2CPP-BepInEx6-2.1.0.zip'']"
    by code_simp
  from archive_name_fixed [OF c s] np s r show ?thesis by (auto simp: is_file_def)
qed

subsection \<open>The reset of the staging directory\<close>

lemma resettable_exists_dir:
  "resettable fs t \<Longrightarrow> t \<noteq> [] \<Longrightarrow> path_exists fs t \<Longrightarrow> is_dir fs t"
  using nothing_below [of t fs t] by (auto simp: resettable_def path_exists_def)



lemma reset_eq:
  assumes "t \<noteq> []" and "resettable fs t"
  shows "reset_temp_dir fs t =
           (case mkdir_parents (remove_tree fs t) t False of
              Inl e \<Rightarrow> (Inl e, remove_tree fs t)
            | Inr fs'' \<Rightarrow> (Inr (), fs''))"
proof (cases "path_exists fs t")
  case True
  with assms have "is_dir fs t" by (simp add: resettable_exists_dir)
  then have "rmtree fs t = Inr (remove_tree fs t)" by (simp add: rmtree_def is_dir_def)
  with True show ?thesis by (simp add: reset_temp_dir_def)
next
  case False
  then have "\<not> is_dir fs t" by (simp add: path_exists_def is_dir_def)
  with assms(2) have eq: "remove_tree fs t = fs" by (simp add: resettable_def remove_tree_id)
  show ?thesis unfolding eq using False by (simp add: reset_temp_dir_def)
qed


lemma reset_temp_dir_ok:
  assumes t: "t \<noteq> []" and nf: "no_file_above fs t" and rs: "resettable fs t"
  shows "\<exists>fs1. reset_temp_dir fs t = (Inr (), fs1) \<and> is_dir fs1 t
           \<and> (\<forall>q. strict_prefix t q \<longrightarrow> lookup fs1 q = None)
           \<and> (\<forall>q. \<not> prefix t q \<longrightarrow> \<not> prefix q t \<longrightarrow> lookup fs1 q = lookup fs q)
           \<and> no_file_above fs1 t"
proof -
  let ?fs0 = "remove_tree fs t"
  have ne: "\<not> path_exists ?fs0 t"
    using t by (simp add: path_exists_def lookup_remove_tree)
  have nf0: "no_file_above ?fs0 t"
    using nf by (auto simp: no_file_above_def list_all_iff is_file_def lookup_remove_tree
        split: option.splits node.splits)
  from mkdir_parents_ok [OF nf0, of False] ne obtain fs1
    where m: "mkdir_parents ?fs0 t False = Inr fs1" by blast
  from mkdir_parents_grew [OF m] have g: "grew ?fs0 fs1 t" and d: "is_dir fs1 t" by simp_all
  have r: "reset_temp_dir fs t = (Inr (), fs1)"
    using reset_eq [OF t rs] m by simp
  have a: "\<forall>q. strict_prefix t q \<longrightarrow> lookup fs1 q = None"
  proof (intro allI impI)
    fix q
    assume s: "strict_prefix t q"
    then have "lookup ?fs0 q = None" and "\<not> prefix q t"
      by (auto simp: lookup_remove_tree strict_prefix_def)
    moreover from g have "lookup fs1 q = lookup ?fs0 q
        \<or> (lookup ?fs0 q = None \<and> lookup fs1 q = Some Dir \<and> prefix q t)"
      unfolding grew_def by (rule spec)
    ultimately show "lookup fs1 q = None" by auto
  qed
  have b: "\<forall>q. \<not> prefix t q \<longrightarrow> \<not> prefix q t \<longrightarrow> lookup fs1 q = lookup fs q"
  proof (intro allI impI)
    fix q
    assume n1: "\<not> prefix t q" and n2: "\<not> prefix q t"
    then have "lookup ?fs0 q = lookup fs q"
      by (simp add: lookup_remove_tree)
    moreover from g have "lookup fs1 q = lookup ?fs0 q
        \<or> (lookup ?fs0 q = None \<and> lookup fs1 q = Some Dir \<and> prefix q t)"
      unfolding grew_def by (rule spec)
    ultimately show "lookup fs1 q = lookup fs q" using n2 by auto
  qed
  have c: "no_file_above fs1 t"
    unfolding no_file_above_def list_all_iff
  proof
    fix q
    assume "q \<in> set (prefixes t)"
    with nf0 have "\<not> is_file ?fs0 q" by (simp add: no_file_above_def list_all_iff)
    moreover from g have "lookup fs1 q = lookup ?fs0 q
        \<or> (lookup ?fs0 q = None \<and> lookup fs1 q = Some Dir \<and> prefix q t)"
      unfolding grew_def by (rule spec)
    ultimately show "\<not> is_file fs1 q" by (auto simp: is_file_def)
  qed
  from r d a b c show ?thesis by blast
qed

subsection \<open>Icon and README\<close>

lemma validate_icon_fs: "w_fs (snd (validate_icon pk p w)) = w_fs w"
  by (auto simp: validate_icon_def say_def split: sum.splits prod.splits)

lemma stage_parts [simp]:
  "path_div t ''manifest.json'' = t @ [''manifest.json'']"
  "path_div t ''icon.png'' = t @ [''icon.png'']"
  "path_div t ''README.md'' = t @ [''README.md'']"
  by (simp_all add: path_div_def)

lemma stage_icon_None:
  "stage_icon pk None w =
     (Inr (), say [NoIcon, CreateIconAt (temp_dir pk @ [''icon.png''])] w)"
  by (simp add: stage_icon_def)

lemma stage_readme_None:
  "stage_readme pk None w =
     (Inr (), say [NoReadme, CreateReadmeAt (temp_dir pk @ [''README.md''])] w)"
  by (simp add: stage_readme_def)





lemma stage_icon_result:
  assumes d: "is_dir (w_fs w) (temp_dir pk)"
    and n: "lookup (w_fs w) (temp_dir pk @ [''icon.png'']) = None"
    and c: "case i of None \<Rightarrow> True | Some ip \<Rightarrow> \<not> is_dir (w_fs w) ip"
  shows "\<exists>w'. stage_icon pk i w = (Inr (), w')
           \<and> (\<forall>q. lookup (w_fs w') q =
                  (if q = temp_dir pk @ [''icon.png''] then copied (w_fs w) i
                   else lookup (w_fs w) q))"
proof (cases i)
  case None
  with n show ?thesis by (simp add: stage_icon_None say_def copied_def)
next
  case (Some ip)
  let ?dest = "temp_dir pk @ [''icon.png'']"
  show ?thesis
  proof (cases "lookup (w_fs w) ip")
    case None
    with Some n show ?thesis
      by (simp add: stage_icon_def path_exists_def say_def copied_def)
  next
    case (Some nd)
    with c \<open>i = Some ip\<close> obtain cn where l: "lookup (w_fs w) ip = Some (File cn)"
      by (cases nd) (auto simp: is_dir_def)
    then have e: "path_exists (w_fs w) ip" by (simp add: path_exists_def)
    from l n have ne: "ip \<noteq> ?dest" by auto
    obtain b w1 where v: "validate_icon pk ip w = (b, w1)" by (cases "validate_icon pk ip w")
    with validate_icon_fs [of pk ip w] have f: "w_fs w1 = w_fs w" by simp
    have "is_dir (w_fs w) (butlast ?dest)" using d by simp
    moreover have "\<not> is_dir (w_fs w) ?dest" using n by (simp add: is_dir_def)
    ultimately obtain fs' where wr: "write_file (w_fs w) ?dest cn = Inr fs'"
      using write_file_ok by blast
    from copy2_file [OF l ne] wr have cp: "copy2 (w_fs w) ip ?dest = Inr fs'" by simp
    from write_file_effect [OF wr]
    have lk: "\<And>q. lookup fs' q = (if q = ?dest then Some (File cn) else lookup (w_fs w) q)"
      by simp
    have "\<exists>w'. stage_icon pk i w = (Inr (), w') \<and> w_fs w' = fs'"
      using \<open>i = Some ip\<close> e v f cp
      by (cases b) (simp_all add: stage_icon_def say_def Let_def)
    then show ?thesis
      using lk l \<open>i = Some ip\<close> by (auto simp: copied_def)
  qed
qed

lemma stage_readme_result:
  assumes d: "is_dir (w_fs w) (temp_dir pk)"
    and n: "lookup (w_fs w) (temp_dir pk @ [''README.md'']) = None"
    and c: "case i of None \<Rightarrow> True | Some ip \<Rightarrow> \<not> is_dir (w_fs w) ip"
  shows "\<exists>w'. stage_readme pk i w = (Inr (), w')
           \<and> (\<forall>q. lookup (w_fs w') q =
                  (if q = temp_dir pk @ [''README.md''] then copied (w_fs w) i
                   else lookup (w_fs w) q))"
proof (cases i)
  case None
  with n show ?thesis by (simp add: stage_readme_None say_def copied_def)
next
  case (Some ip)
  let ?dest = "temp_dir pk @ [''README.md'']"
  show ?thesis
  proof (cases "lookup (w_fs w) ip")
    case None
    with Some n show ?thesis
      by (simp add: stage_readme_def path_exists_def say_def copied_def)
  next
    case (Some nd)
    with c \<open>i = Some ip\<close> obtain cn where l: "lookup (w_fs w) ip = Some (File cn)"
      by (cases nd) (auto simp: is_dir_def)
    then have e: "path_exists (w_fs w) ip" by (simp add: path_exists_def)
    from l n have ne: "ip \<noteq> ?dest" by auto
    have "is_dir (w_fs w) (butlast ?dest)" using d by simp
    moreover have "\<not> is_dir (w_fs w) ?dest" using n by (simp add: is_dir_def)
    ultimately obtain fs' where wr: "write_file (w_fs w) ?dest cn = Inr fs'"
      using write_file_ok by blast
    from copy2_file [OF l ne] wr have cp: "copy2 (w_fs w) ip ?dest = Inr fs'" by simp
    from write_file_effect [OF wr]
    have lk: "\<And>q. lookup fs' q = (if q = ?dest then Some (File cn) else lookup (w_fs w) q)"
      by simp
    have "\<exists>w'. stage_readme pk i w = (Inr (), w') \<and> w_fs w' = fs'"
      using \<open>i = Some ip\<close> e cp by (simp add: stage_readme_def say_def Let_def)
    then show ?thesis
      using lk l \<open>i = Some ip\<close> by (auto simp: copied_def)
  qed
qed

subsection \<open>Extraction stays near the staging directory\<close>




subsection \<open>The staging directory after prepare_package\<close>






subsection \<open>A missing build archive\<close>

lemma create_manifest_world:
  "w_fs (snd (create_manifest pk n d u deps ns w)) = w_fs w
   \<and> w_cwd (snd (create_manifest pk n d u deps ns w)) = w_cwd w"
  by (simp add: create_manifest_def say_def)

lemma prepare_package_missing_build:
  assumes nf: "no_file_above (w_fs w) (temp_dir pk)"
    and rs: "resettable (w_fs w) (temp_dir pk)"
    and oi: "outside (w_fs w) (temp_dir pk) i"
    and ord: "outside (w_fs w) (temp_dir pk) rd"
    and nb: "\<not> path_exists (w_fs w) (build_zip pk)"
    and b1: "\<not> prefix (build_zip pk) (temp_dir pk)"
    and b2: "\<not> prefix (temp_dir pk) (build_zip pk)"
  shows "\<exists>w'. prepare_package pk md i rd w
                 = (Inl (FileNotFoundError (BuildFileNotFound (build_zip pk))), w')
           \<and> is_dir (w_fs w') (temp_dir pk)
           \<and> lookup (w_fs w') (temp_dir pk @ [''manifest.json'']) = Some (File (Json md))
           \<and> lookup (w_fs w') (temp_dir pk @ [''icon.png'']) = copied (w_fs w) i
           \<and> lookup (w_fs w') (temp_dir pk @ [''README.md'']) = copied (w_fs w) rd
           \<and> \<not> path_exists (w_fs w') (build_zip pk)
           \<and> w_cwd w' = w_cwd w"
proof -
  let ?t = "temp_dir pk"
  let ?fs = "w_fs w"
  let ?m = "?t @ [''manifest.json'']"
  let ?ic = "?t @ [''icon.png'']"
  let ?re = "?t @ [''README.md'']"
  have t: "?t \<noteq> []" by (rule temp_dir_nonempty)
  from reset_temp_dir_ok [OF t nf rs] obtain fs1 where
    r: "reset_temp_dir ?fs ?t = (Inr (), fs1)" and d1: "is_dir fs1 ?t"
    and a1: "\<And>q. strict_prefix ?t q \<Longrightarrow> lookup fs1 q = None"
    and u1: "\<And>q. \<not> prefix ?t q \<Longrightarrow> \<not> prefix q ?t \<Longrightarrow> lookup fs1 q = lookup ?fs q"
    by blast
  have a1': "\<And>x. lookup fs1 (?t @ [x]) = None"
    using a1 by (simp add: strict_prefix_def)
  have "is_dir fs1 (butlast ?m)" using d1 by simp
  moreover have "\<not> is_dir fs1 ?m" using a1' [of "''manifest.json''"] by (simp add: is_dir_def)
  ultimately obtain fs2 where wr: "write_file fs1 ?m (Json md) = Inr fs2"
    using write_file_ok by blast
  from write_file_effect [OF wr]
  have l2: "\<And>q. lookup fs2 q = (if q = ?m then Some (File (Json md)) else lookup fs1 q)"
    by simp
  have out2: "\<And>p. \<not> prefix ?t p \<Longrightarrow> \<not> prefix p ?t \<Longrightarrow> lookup fs2 p = lookup ?fs p"
    using u1 by (auto simp: l2)
  let ?w2 = "say [CreatedManifest] (w\<lparr>w_fs := fs2\<rparr>)"
  have f2: "w_fs ?w2 = fs2" by (simp add: say_def)
  have ci: "case i of None \<Rightarrow> True | Some ip \<Rightarrow> \<not> is_dir (w_fs ?w2) ip"
    using oi out2 by (auto simp: outside_def f2 is_dir_def split: option.splits)
  have cpi: "copied fs2 i = copied ?fs i"
    using oi out2 by (auto simp: outside_def copied_def split: option.splits)
  have "is_dir (w_fs ?w2) ?t" using d1 by (simp add: f2 is_dir_def l2)
  moreover have "lookup (w_fs ?w2) ?ic = None" using a1' [of "''icon.png''"] by (simp add: f2 l2)
  ultimately obtain w3 where s3: "stage_icon pk i ?w2 = (Inr (), w3)"
    and l3: "\<And>q. lookup (w_fs w3) q = (if q = ?ic then copied fs2 i else lookup fs2 q)"
    using stage_icon_result [OF _ _ ci] unfolding f2 by blast
  have out3: "\<And>p. \<not> prefix ?t p \<Longrightarrow> \<not> prefix p ?t \<Longrightarrow> lookup (w_fs w3) p = lookup ?fs p"
    using out2 by (auto simp: l3)
  have cr: "case rd of None \<Rightarrow> True | Some rp \<Rightarrow> \<not> is_dir (w_fs w3) rp"
    using ord out3 by (auto simp: outside_def is_dir_def split: option.splits)
  have cpr: "copied (w_fs w3) rd = copied ?fs rd"
    using ord out3 by (auto simp: outside_def copied_def split: option.splits)
  have "is_dir (w_fs w3) ?t" using d1 by (simp add: is_dir_def l3 l2)
  moreover have "lookup (w_fs w3) ?re = None" using a1' [of "''README.md''"] by (simp add: l3 l2)
  ultimately obtain w4 where s4: "stage_readme pk rd w3 = (Inr (), w4)"
    and l4: "\<And>q. lookup (w_fs w4) q
                  = (if q = ?re then copied (w_fs w3) rd else lookup (w_fs w3) q)"
    using stage_readme_result [OF _ _ cr] by blast
  have "lookup (w_fs w4) (build_zip pk) = lookup ?fs (build_zip pk)"
    using b1 b2 out3 [of "build_zip pk"] by (auto simp: l4)
  with nb have nb4: "\<not> path_exists (w_fs w4) (build_zip pk)" by (simp add: path_exists_def)
  then have eb: "extract_build pk w4
                   = (Inl (FileNotFoundError (BuildFileNotFound (build_zip pk))), w4)"
    by (simp add: extract_build_def)
  have res: "prepare_package pk md i rd w
               = (Inl (FileNotFoundError (BuildFileNotFound (build_zip pk))), w4)"
    using r wr s3 s4 eb by (simp add: prepare_package_def)
  have c0: "w_cwd w4 = w_cwd w"
  proof -
    have "\<And>j v v'. stage_icon pk j v = (Inr (), v') \<Longrightarrow> w_cwd v' = w_cwd v"
    proof -
      fix j v v'
      assume x: "stage_icon pk j v = (Inr (), v')"
      show "w_cwd v' = w_cwd v"
      proof (cases j)
        case None
        with x show ?thesis by (auto simp: stage_icon_None say_def)
      next
        case (Some ip)
        obtain b w1 where vi: "validate_icon pk ip v = (b, w1)"
          by (cases "validate_icon pk ip v")
        then have "w_cwd w1 = w_cwd v"
          by (auto simp: validate_icon_def say_def split: if_splits sum.splits prod.splits)
        with x Some vi show ?thesis
          by (cases b) (auto simp: stage_icon_def say_def Let_def split: if_splits sum.splits)
      qed
    qed
    from this [OF s3] have "w_cwd w3 = w_cwd w" by (simp add: say_def)
    moreover from s4 have "w_cwd w4 = w_cwd w3"
      by (cases rd) (auto simp: stage_readme_def say_def Let_def split: if_splits sum.splits)
    ultimately show ?thesis by simp
  qed
  have "is_dir (w_fs w4) ?t" using d1 by (simp add: is_dir_def l4 l3 l2)
  moreover have "lookup (w_fs w4) ?m = Some (File (Json md))" by (simp add: l4 l3 l2)
  moreover have "lookup (w_fs w4) ?ic = copied ?fs i" by (simp add: l4 l3 cpi)
  moreover have "lookup (w_fs w4) ?re = copied ?fs rd" by (simp add: l4 cpr)
  ultimately show ?thesis using res nb4 c0 by blast
qed

lemma main_runs_packager:
  assumes "parse_args (w_cwd w) c = Inr a"
    and "path_exists (w_fs w) (a_output_dir a)"
    and "is_dir (w_fs w) (a_thunderstore_dir a)"
  shows "main c w = run_packager a w"
  using assms by (simp add: main_def mkdir_parents_existing)

text \<open>
  C6. Let no regular file be at or above the staging directory, let the staging directory
  be a directory or nothing be stored at or below its path, let the icon and the README
  that are given be outside the staging directory and no directories, and let the build
  archive's path, neither above nor below the staging directory, not exist. Then
  \<open>prepare_package\<close> leaves with the not-found error that names the build archive,
  and by then the staging directory is a directory that holds the manifest and the copies
  of the icon and the README that exist. When this is so for the packager that
  \<open>main\<close> makes from the command line (the output directory there and the
  thunderstore directory a directory), \<open>main\<close> ends with status 1, its last line
  is that error, and the staging directory with the manifest is still there.
\<close>

theorem missing_build_artifact:
  "(no_file_above (w_fs w) (temp_dir pk)
      \<and> resettable (w_fs w) (temp_dir pk)
      \<and> outside (w_fs w) (temp_dir pk) i
      \<and> outside (w_fs w) (temp_dir pk) rd
      \<and> \<not> path_exists (w_fs w) (build_zip pk)
      \<and> \<not> prefix (build_zip pk) (temp_dir pk)
      \<and> \<not> prefix (temp_dir pk) (build_zip pk)
    \<longrightarrow> (\<exists>w'. prepare_package pk md i rd w
                  = (Inl (FileNotFoundError (BuildFileNotFound (build_zip pk))), w')
           \<and> is_dir (w_fs w') (temp_dir pk)
           \<and> lookup (w_fs w') (temp_dir pk @ [''manifest.json'']) = Some (File (Json md))
           \<and> lookup (w_fs w') (temp_dir pk @ [''icon.png'']) = copied (w_fs w) i
           \<and> lookup (w_fs w') (temp_dir pk @ [''README.md'']) = copied (w_fs w) rd))
   \<and> (parse_args (w_cwd w) c = Inr a
      \<and> path_exists (w_fs w) (a_output_dir a)
      \<and> is_dir (w_fs w) (a_thunderstore_dir a)
      \<and> no_file_above (w_fs w) (temp_dir (make_packager a))
      \<and> resettable (w_fs w) (temp_dir (make_packager a))
      \<and> outside (w_fs w) (temp_dir (make_packager a))
           (Some (case a_icon a of Some p \<Rightarrow> p | None \<Rightarrow> path_div (w_cwd w) ''icon.png''))
      \<and> outside (w_fs w) (temp_dir (make_packager a))
           (Some (case a_readme a of Some p \<Rightarrow> p | None \<Rightarrow> path_div (w_cwd w) ''README.md''))
      \<and> \<not> path_exists (w_fs w) (build_zip (make_packager a))
      \<and> \<not> prefix (build_zip (make_packager a)) (temp_dir (make_packager a))
      \<and> \<not> prefix (temp_dir (make_packager a)) (build_zip (make_packager a))
    \<longrightarrow> (\<exists>w'. main c w = (Exited 1, w')
           \<and> last (w_out w') = ErrNotFound (BuildFileNotFound (build_zip (make_packager a)))
           \<and> is_dir (w_fs w') (temp_dir (make_packager a))
           \<and> path_exists (w_fs w') (temp_dir (make_packager a) @ [''manifest.json''])
           \<and> lookup (w_fs w') (temp_dir (make_packager a) @ [''manifest.json''])
               = Some (File (Json (fst (create_manifest (make_packager a) (a_name a)
                                          (a_description a) (a_website a) (a_deps a)
                                          (a_namespace a) w))))
           \<and> lookup (w_fs w') (temp_dir (make_packager a) @ [''icon.png''])
               = copied (w_fs w)
                   (Some (case a_icon a of Some p \<Rightarrow> p
                          | None \<Rightarrow> path_div (w_cwd w) ''icon.png''))
           \<and> lookup (w_fs w') (temp_dir (make_packager a) @ [''README.md''])
               = copied (w_fs w)
                   (Some (case a_readme a of Some p \<Rightarrow> p
                          | None \<Rightarrow> path_div (w_cwd w) ''README.md''))))"
proof (intro conjI impI)
  assume "no_file_above (w_fs w) (temp_dir pk)
      \<and> resettable (w_fs w) (temp_dir pk)
      \<and> outside (w_fs w) (temp_dir pk) i
      \<and> outside (w_fs w) (temp_dir pk) rd
      \<and> \<not> path_exists (w_fs w) (build_zip pk)
      \<and> \<not> prefix (build_zip pk) (temp_dir pk)
      \<and> \<not> prefix (temp_dir pk) (build_zip pk)"
  then show "\<exists>w'. prepare_package pk md i rd w
                  = (Inl (FileNotFoundError (BuildFileNotFound (build_zip pk))), w')
           \<and> is_dir (w_fs w') (temp_dir pk)
           \<and> lookup (w_fs w') (temp_dir pk @ [''manifest.json'']) = Some (File (Json md))
           \<and> lookup (w_fs w') (temp_dir pk @ [''icon.png'']) = copied (w_fs w) i
           \<and> lookup (w_fs w') (temp_dir pk @ [''README.md'']) = copied (w_fs w) rd"
    using prepare_package_missing_build [of w pk i rd md] by blast
next
  let ?pk = "make_packager a"
  let ?ip = "case a_icon a of Some p \<Rightarrow> p | None \<Rightarrow> path_div (w_cwd w) ''icon.png''"
  let ?rp = "case a_readme a of Some p \<Rightarrow> p | None \<Rightarrow> path_div (w_cwd w) ''README.md''"
  assume h: "parse_args (w_cwd w) c = Inr a
      \<and> path_exists (w_fs w) (a_output_dir a)
      \<and> is_dir (w_fs w) (a_thunderstore_dir a)
      \<and> no_file_above (w_fs w) (temp_dir ?pk)
      \<and> resettable (w_fs w) (temp_dir ?pk)
      \<and> outside (w_fs w) (temp_dir ?pk) (Some ?ip)
      \<and> outside (w_fs w) (temp_dir ?pk) (Some ?rp)
      \<and> \<not> path_exists (w_fs w) (build_zip ?pk)
      \<and> \<not> prefix (build_zip ?pk) (temp_dir ?pk)
      \<and> \<not> prefix (temp_dir ?pk) (build_zip ?pk)"
  then have m: "main c w = run_packager a w" by (simp add: main_runs_packager)
  obtain md w1 where cm: "create_manifest ?pk (a_name a) (a_description a) (a_website a)
                            (a_deps a) (a_namespace a) w = (md, w1)"
    by (cases "create_manifest ?pk (a_name a) (a_description a) (a_website a)
                 (a_deps a) (a_namespace a) w")
  with create_manifest_world [of ?pk "a_name a" "a_description a" "a_website a" "a_deps a"
      "a_namespace a" w]
  have f1: "w_fs w1 = w_fs w" by simp
  let ?w2 = "say [Banner (a_variant a) (a_version a) (a_thunderstore_dir a)] w1"
  have f2: "w_fs ?w2 = w_fs w" by (simp add: say_def f1)
  from h f2 prepare_package_missing_build [of ?w2 ?pk "Some ?ip" "Some ?rp" md]
  obtain w3 where pp: "prepare_package ?pk md (Some ?ip) (Some ?rp) ?w2
                         = (Inl (FileNotFoundError (BuildFileNotFound (build_zip ?pk))), w3)"
    and d3: "is_dir (w_fs w3) (temp_dir ?pk)"
    and m3: "lookup (w_fs w3) (temp_dir ?pk @ [''manifest.json'']) = Some (File (Json md))"
    and i3: "lookup (w_fs w3) (temp_dir ?pk @ [''icon.png'']) = copied (w_fs w) (Some ?ip)"
    and e3: "lookup (w_fs w3) (temp_dir ?pk @ [''README.md'']) = copied (w_fs w) (Some ?rp)"
    by auto
  from cm have mdv: "md = fst (create_manifest ?pk (a_name a) (a_description a) (a_website a)
                                (a_deps a) (a_namespace a) w)"
    by simp
  let ?w' = "say [ErrNotFound (BuildFileNotFound (build_zip ?pk))] w3"
  have "run_packager a w = (Exited 1, ?w')"
    using cm pp by (simp add: run_packager_def Let_def handle_error_def)
  with m have "main c w = (Exited 1, ?w')" by simp
  moreover have "last (w_out ?w') = ErrNotFound (BuildFileNotFound (build_zip ?pk))"
    by (simp add: say_def)
  moreover have "is_dir (w_fs ?w') (temp_dir ?pk)" using d3 by (simp add: say_def)
  moreover have "path_exists (w_fs ?w') (temp_dir ?pk @ [''manifest.json''])"
    using m3 by (simp add: say_def path_exists_def)
  moreover have "lookup (w_fs ?w') (temp_dir ?pk @ [''manifest.json''])
               = Some (File (Json (fst (create_manifest ?pk (a_name a) (a_description a)
                                          (a_website a) (a_deps a) (a_namespace a) w))))"
    using m3 mdv by (simp add: say_def)
  moreover have "lookup (w_fs ?w') (temp_dir ?pk @ [''icon.png'']) = copied (w_fs w) (Some ?ip)"
    using i3 by (simp add: say_def)
  moreover have "lookup (w_fs ?w') (temp_dir ?pk @ [''README.md'']) = copied (w_fs w) (Some ?rp)"
    using e3 by (simp add: say_def)
  ultimately show "\<exists>w'. main c w = (Exited 1, w')
           \<and> last (w_out w') = ErrNotFound (BuildFileNotFound (build_zip ?pk))
           \<and> is_dir (w_fs w') (temp_dir ?pk)
           \<and> path_exists (w_fs w') (temp_dir ?pk @ [''manifest.json''])
           \<and> lookup (w_fs w') (temp_dir ?pk @ [''manifest.json''])
               = Some (File (Json (fst (create_manifest ?pk (a_name a) (a_description a)
                                          (a_website a) (a_deps a) (a_namespace a) w))))
           \<and> lookup (w_fs w') (temp_dir ?pk @ [''icon.png'']) = copied (w_fs w) (Some ?ip)
           \<and> lookup (w_fs w') (temp_dir ?pk @ [''README.md'']) = copied (w_fs w) (Some ?rp)"
    by blast
qed

theorem missing_build_artifact_witness:
  "parse_args (w_cwd no_build_world) demo_cli = Inr demo_args
   \<and> \<not> path_exists (w_fs no_build_world) (build_zip demo_packager)
   \<and> build_zip demo_packager = demo_build
   \<and> fst (prepare_package demo_packager [] (Some [''w'', ''icon.png'']) None no_build_world)
       = Inl (FileNotFoundError (BuildFileNotFound demo_build))
   \<and> lookup (w_fs (snd (prepare_package demo_packager [] (Some [''w'', ''icon.png'']) None
                          no_build_world)))
        (demo_staging @ [''icon.png''])
       = Some (File (Image ''PNG'' 256 256))
   \<and> fst (main demo_cli no_build_world) = Exited 1
   \<and> last (w_out (snd (main demo_cli no_build_world)))
       = ErrNotFound (BuildFileNotFound demo_build)
   \<and> is_dir (w_fs (snd (main demo_cli no_build_world))) demo_staging
   \<and> path_exists (w_fs (snd (main demo_cli no_build_world)))
        (demo_staging @ [''manifest.json''])"
proof -
  have p: "parse_args (w_cwd no_build_world) demo_cli = Inr demo_args" by code_simp
  have k: "make_packager demo_args = demo_packager" by code_simp
  have t: "temp_dir demo_packager = demo_staging" by code_simp
  have b: "build_zip demo_packager = demo_build" by code_simp
  have h: "no_file_above (w_fs no_build_world) (temp_dir demo_packager)"
      "resettable (w_fs no_build_world) (temp_dir demo_packager)"
      "outside (w_fs no_build_world) (temp_dir demo_packager) (Some [''w'', ''icon.png''])"
      "outside (w_fs no_build_world) (temp_dir demo_packager) None"
      "\<not> path_exists (w_fs no_build_world) (build_zip demo_packager)"
      "\<not> prefix (build_zip demo_packager) (temp_dir demo_packager)"
      "\<not> prefix (temp_dir demo_packager) (build_zip demo_packager)"
      "path_exists (w_fs no_build_world) (a_output_dir demo_args)"
      "is_dir (w_fs no_build_world) (a_thunderstore_dir demo_args)"
      "outside (w_fs no_build_world) (temp_dir demo_packager)
         (Some (case a_icon demo_args of Some p \<Rightarrow> p
                | None \<Rightarrow> path_div (w_cwd no_build_world) ''icon.png''))"
      "outside (w_fs no_build_world) (temp_dir demo_packager)
         (Some (case a_readme demo_args of Some p \<Rightarrow> p
                | None \<Rightarrow> path_div (w_cwd no_build_world) ''README.md''))"
    by code_simp+
  have c: "copied (w_fs no_build_world) (Some [''w'', ''icon.png''])
             = Some (File (Image ''PNG'' 256 256))"
    by code_simp
  from missing_build_artifact
         [where w = no_build_world and pk = demo_packager and i = "Some [''w'', ''icon.png'']"
            and rd = None and md = "[]" and c = demo_cli and a = demo_args]
       p h
  obtain w1 w2 where
    r1: "prepare_package demo_packager [] (Some [''w'', ''icon.png'']) None no_build_world
           = (Inl (FileNotFoundError (BuildFileNotFound (build_zip demo_packager))), w1)"
    and i1: "lookup (w_fs w1) (temp_dir demo_packager @ [''icon.png''])
               = copied (w_fs no_build_world) (Some [''w'', ''icon.png''])"
    and r2: "main demo_cli no_build_world = (Exited 1, w2)"
    and l2: "last (w_out w2) = ErrNotFound (BuildFileNotFound (build_zip demo_packager))"
    and d2: "is_dir (w_fs w2) (temp_dir demo_packager)"
    and m2: "path_exists (w_fs w2) (temp_dir demo_packager @ [''manifest.json''])"
    unfolding k by blast
  from p h(5) b r1 i1 r2 l2 d2 m2 c show ?thesis
    unfolding t by simp
qed

subsection \<open>Staging without icon and README\<close>

lemma extract_member_touch:
  assumes a: "extract_member t fs m = (r, fs')" and c: "lookup fs' q \<noteq> lookup fs q"
  shows "prefix q (t @ sanitize (fst m))"
proof -
  let ?arc = "sanitize (fst m)"
  let ?target = "t @ ?arc"
  have ne: "?arc \<noteq> []"
    using a c by (auto simp: extract_member_def)
  define fs1 where "fs1 = (if path_exists fs (butlast ?target) then Inr fs
                           else mkdir_parents fs (butlast ?target) True)"
  show ?thesis
  proof (cases fs1)
    case (Inl e)
    with a ne c show ?thesis by (simp add: extract_member_def Let_def fs1_def)
  next
    case (Inr f1)
    have g: "grew fs f1 (butlast ?target)"
    proof (cases "path_exists fs (butlast ?target)")
      case True
      with Inr show ?thesis by (simp add: fs1_def grew_refl)
    next
      case False
      with Inr have "mkdir_parents fs (butlast ?target) True = Inr f1" by (simp add: fs1_def)
      then show ?thesis by (simp add: mkdir_parents_grew)
    qed
    have up: "prefix (butlast ?target) ?target" by (rule prefixeq_butlast)
    have k: "lookup f1 q \<noteq> lookup fs q \<Longrightarrow> prefix q ?target"
    proof -
      assume "lookup f1 q \<noteq> lookup fs q"
      moreover from g have "lookup f1 q = lookup fs q
          \<or> (lookup fs q = None \<and> lookup f1 q = Some Dir \<and> prefix q (butlast ?target))"
        unfolding grew_def by (rule spec)
      ultimately have "prefix q (butlast ?target)" by auto
      then show ?thesis using up by (rule prefix_order.trans)
    qed
    show ?thesis
    proof (cases "write_file f1 ?target (snd m)")
      case (Inl e)
      with a ne Inr have "fs' = f1" by (simp add: extract_member_def Let_def fs1_def)
      with c k show ?thesis by simp
    next
      case w: (Inr f2)
      with a ne Inr have "fs' = f2" by (simp add: extract_member_def Let_def fs1_def)
      with write_file_effect [OF w] c k show ?thesis by (cases "q = ?target") auto
    qed
  qed
qed

lemma extractall_touch:
  "extractall t fs ms = (r, fs') \<Longrightarrow> lookup fs' q \<noteq> lookup fs q \<Longrightarrow>
     \<exists>m \<in> set ms. prefix q (t @ sanitize (fst m))"
proof (induction ms arbitrary: fs)
  case Nil
  then show ?case by simp
next
  case (Cons m ms)
  obtain r1 f1 where e: "extract_member t fs m = (r1, f1)" by (cases "extract_member t fs m")
  show ?case
  proof (cases "lookup f1 q = lookup fs q")
    case False
    with e have "prefix q (t @ sanitize (fst m))" by (auto dest: extract_member_touch)
    then show ?thesis by simp
  next
    case True
    show ?thesis
    proof (cases r1)
      case (Inl x)
      with Cons.prems e True show ?thesis by simp
    next
      case (Inr u)
      with Cons.prems e have "extractall t f1 ms = (r, fs')" by simp
      moreover from Cons.prems(2) True have "lookup fs' q \<noteq> lookup f1 q" by simp
      ultimately have "\<exists>m \<in> set ms. prefix q (t @ sanitize (fst m))" by (rule Cons.IH)
      then show ?thesis by auto
    qed
  qed
qed

lemma extractall_untouched:
  assumes "extractall t fs ms = (r, fs')"
    and "\<forall>m \<in> set ms. \<not> prefix [x] (sanitize (fst m))"
  shows "lookup fs' (t @ [x]) = lookup fs (t @ [x])"
  using extractall_touch [OF assms(1), of "t @ [x]"] assms(2) by auto

lemma prepare_package_plain:
  assumes nf: "no_file_above (w_fs w) (temp_dir pk)"
    and rs: "resettable (w_fs w) (temp_dir pk)"
    and zip: "lookup (w_fs w) (build_zip pk) = Some (File (Archive es))"
    and b2: "\<not> prefix (temp_dir pk) (build_zip pk)"
  shows "\<exists>fs2. is_dir fs2 (temp_dir pk)
           \<and> no_file_above fs2 (temp_dir pk)
           \<and> (\<forall>r. r \<noteq> [] \<longrightarrow>
                  lookup fs2 (temp_dir pk @ r)
                    = (if r = [''manifest.json''] then Some (File (Json md)) else None))
           \<and> prepare_package pk md None None w =
               (case extractall (temp_dir pk) fs2 es of
                  (Inl e, fs') \<Rightarrow>
                    (Inl e,
                     (say [CreatedManifest, NoIcon, CreateIconAt (temp_dir pk @ [''icon.png'']),
                           NoReadme, CreateReadmeAt (temp_dir pk @ [''README.md'']),
                           ExtractingBuild (last (build_zip pk))] w)\<lparr>w_fs := fs'\<rparr>)
                | (Inr u, fs') \<Rightarrow>
                    (Inr (temp_dir pk),
                     (say [CreatedManifest, NoIcon, CreateIconAt (temp_dir pk @ [''icon.png'']),
                           NoReadme, CreateReadmeAt (temp_dir pk @ [''README.md'']),
                           ExtractingBuild (last (build_zip pk))] w)\<lparr>w_fs := fs'\<rparr>))"
proof -
  let ?t = "temp_dir pk"
  let ?fs = "w_fs w"
  let ?m = "?t @ [''manifest.json'']"
  have t: "?t \<noteq> []" by (rule temp_dir_nonempty)
  from reset_temp_dir_ok [OF t nf rs] obtain fs1 where
    r: "reset_temp_dir ?fs ?t = (Inr (), fs1)" and d1: "is_dir fs1 ?t"
    and a1: "\<And>q. strict_prefix ?t q \<Longrightarrow> lookup fs1 q = None"
    and u1: "\<And>q. \<not> prefix ?t q \<Longrightarrow> \<not> prefix q ?t \<Longrightarrow> lookup fs1 q = lookup ?fs q"
    and nf1: "no_file_above fs1 ?t"
    by blast
  have a1': "\<And>r. r \<noteq> [] \<Longrightarrow> lookup fs1 (?t @ r) = None"
    using a1 by (simp add: strict_prefix_def)
  have "is_dir fs1 (butlast ?m)" using d1 by simp
  moreover have "\<not> is_dir fs1 ?m" using a1' [of "[''manifest.json'']"] by (simp add: is_dir_def)
  ultimately obtain fs2 where wr: "write_file fs1 ?m (Json md) = Inr fs2"
    using write_file_ok by blast
  from write_file_effect [OF wr]
  have l2: "\<And>q. lookup fs2 q = (if q = ?m then Some (File (Json md)) else lookup fs1 q)"
    by simp
  have d2: "is_dir fs2 ?t" using d1 by (simp add: is_dir_def l2)
  have nf2: "no_file_above fs2 ?t"
    using nf1 by (auto simp: no_file_above_def list_all_iff is_file_def l2
        dest: prefix_length_le)
  have c2: "\<forall>r. r \<noteq> [] \<longrightarrow>
                  lookup fs2 (?t @ r) = (if r = [''manifest.json''] then Some (File (Json md))
                                         else None)"
    using a1' by (simp add: l2)
  have nb1: "\<not> prefix (build_zip pk) ?t"
  proof
    assume "prefix (build_zip pk) ?t"
    with nf have "\<not> is_file ?fs (build_zip pk)"
      by (simp add: no_file_above_def list_all_iff)
    with zip show False by (simp add: is_file_def)
  qed
  have "lookup fs2 (build_zip pk) = lookup ?fs (build_zip pk)"
    using b2 nb1 u1 [of "build_zip pk"] by (auto simp: l2)
  with zip have z2: "lookup fs2 (build_zip pk) = Some (File (Archive es))" by simp
  have "prepare_package pk md None None w =
               (case extractall ?t fs2 es of
                  (Inl e, fs') \<Rightarrow>
                    (Inl e,
                     (say [CreatedManifest, NoIcon, CreateIconAt (?t @ [''icon.png'']),
                           NoReadme, CreateReadmeAt (?t @ [''README.md'']),
                           ExtractingBuild (last (build_zip pk))] w)\<lparr>w_fs := fs'\<rparr>)
                | (Inr u, fs') \<Rightarrow>
                    (Inr ?t,
                     (say [CreatedManifest, NoIcon, CreateIconAt (?t @ [''icon.png'']),
                           NoReadme, CreateReadmeAt (?t @ [''README.md'']),
                           ExtractingBuild (last (build_zip pk))] w)\<lparr>w_fs := fs'\<rparr>))"
    using r wr z2
    by (simp add: prepare_package_def stage_icon_None stage_readme_None extract_build_def
        say_def path_exists_def Let_def split: prod.splits sum.splits)
  with d2 nf2 c2 show ?thesis by blast
qed

lemma grew_at:
  "grew fs fs' p \<Longrightarrow>
     lookup fs' q = lookup fs q
     \<or> (lookup fs q = None \<and> lookup fs' q = Some Dir \<and> prefix q p)"
  unfolding grew_def by (rule spec)

lemma strict_prefix_butlast: "arc \<noteq> [] \<Longrightarrow> prefix r (butlast arc) \<Longrightarrow> strict_prefix r arc"
proof -
  assume a: "arc \<noteq> []" and p: "prefix r (butlast arc)"
  from a have "strict_prefix (butlast arc) arc"
    by (metis append_butlast_last_id prefix_snocD prefix_order.refl)
  with p show ?thesis by (rule prefix_order.le_less_trans)
qed

lemma extract_member_ok:
  assumes st: "staged fs t F D"
    and ne: "sanitize (fst m) \<noteq> []"
    and nF: "\<forall>a \<in> F. \<not> strict_prefix a (sanitize (fst m))"
    and nD: "\<forall>a \<in> D. \<not> strict_prefix (sanitize (fst m)) a"
  shows "\<exists>fs'. extract_member t fs m = (Inr (), fs')
           \<and> staged fs' t (insert (sanitize (fst m)) F) (insert (sanitize (fst m)) D)"
proof -
  let ?arc = "sanitize (fst m)"
  let ?target = "t @ ?arc"
  let ?upper = "t @ butlast ?arc"
  from ne have bl: "butlast ?target = ?upper" by (simp add: butlast_append)
  from st have dt: "is_dir fs t" and nft: "no_file_above fs t"
    and fl: "\<And>r. r \<noteq> [] \<Longrightarrow> is_file fs (t @ r) \<Longrightarrow> r \<in> F"
    and dr: "\<And>r. r \<noteq> [] \<Longrightarrow> is_dir fs (t @ r) \<Longrightarrow> \<exists>a \<in> D. strict_prefix r a"
    by (auto simp: staged_def)
  have nfu: "no_file_above fs ?upper"
    unfolding no_file_above_def list_all_iff
  proof
    fix q
    assume "q \<in> set (prefixes ?upper)"
    then have "prefix q ?upper" by simp
    then consider "prefix q t" | r where "q = t @ r" "r \<noteq> []" "prefix r (butlast ?arc)"
      by (cases "prefix q t") (auto simp: prefix_append)
    then show "\<not> is_file fs q"
    proof cases
      case 1
      with nft show ?thesis by (simp add: no_file_above_def list_all_iff)
    next
      case 2
      show ?thesis
      proof
        assume "is_file fs q"
        with 2 have "r \<in> F" by (simp add: fl)
        moreover from ne 2(3) have "strict_prefix r ?arc" by (rule strict_prefix_butlast)
        ultimately show False using nF by blast
      qed
    qed
  qed
  have "\<exists>fs1. (if path_exists fs ?upper then Inr fs else mkdir_parents fs ?upper True) = Inr fs1
          \<and> grew fs fs1 ?upper \<and> is_dir fs1 ?upper"
  proof (cases "path_exists fs ?upper")
    case True
    moreover have "\<not> is_file fs ?upper"
      using nfu by (simp add: no_file_above_def list_all_iff)
    ultimately have "is_dir fs ?upper" by (simp add: not_file_exists_is_dir)
    with True show ?thesis by (simp add: grew_refl)
  next
    case False
    from mkdir_parents_ok [OF nfu, of True] obtain fs1
      where "mkdir_parents fs ?upper True = Inr fs1" by auto
    with False mkdir_parents_grew [of fs ?upper True fs1] show ?thesis by simp
  qed
  then obtain fs1 where
    m1: "(if path_exists fs ?upper then Inr fs else mkdir_parents fs ?upper True) = Inr fs1"
    and g: "grew fs fs1 ?upper" and du: "is_dir fs1 ?upper"
    by blast
  have ntu: "\<not> prefix ?target ?upper"
  proof
    assume "prefix ?target ?upper"
    then have l: "length ?target \<le> length ?upper" by (rule prefix_length_le)
    have u: "length ?upper = length t + (length ?arc - 1)" by simp
    have a: "length ?target = length t + length ?arc" by simp
    have p: "1 \<le> length ?arc" using ne by (cases ?arc) simp_all
    from l u a p show False by linarith
  qed
  have lt: "lookup fs1 ?target = lookup fs ?target"
    using grew_at [OF g, of ?target] ntu by auto
  have nd: "\<not> is_dir fs1 ?target"
  proof
    assume "is_dir fs1 ?target"
    with lt have "is_dir fs ?target" by (simp add: is_dir_def)
    with ne dr [of ?arc] obtain a where "a \<in> D" "strict_prefix ?arc a" by blast
    with nD show False by blast
  qed
  from du bl have "is_dir fs1 (butlast ?target)" by simp
  with nd obtain fs2 where wr: "write_file fs1 ?target (snd m) = Inr fs2"
    using write_file_ok by blast
  from write_file_effect [OF wr]
  have l2: "\<And>q. lookup fs2 q = (if q = ?target then Some (File (snd m)) else lookup fs1 q)"
    by simp
  have res: "extract_member t fs m = (Inr (), fs2)"
    using ne m1 wr unfolding extract_member_def Let_def bl by simp
  have tt: "t \<noteq> ?target" using ne by simp
  have s1: "is_dir fs2 t"
    using dt grew_at [OF g, of t] tt by (auto simp: is_dir_def l2)
  have s2: "no_file_above fs2 t"
    unfolding no_file_above_def list_all_iff
  proof
    fix q
    assume "q \<in> set (prefixes t)"
    then have p: "prefix q t" by simp
    with nft have "\<not> is_file fs q" by (simp add: no_file_above_def list_all_iff)
    moreover from p ne have "q \<noteq> ?target" by (auto dest: prefix_length_le)
    ultimately show "\<not> is_file fs2 q"
      using grew_at [OF g, of q] by (auto simp: is_file_def l2)
  qed
  have s3: "\<forall>r. r \<noteq> [] \<longrightarrow> is_file fs2 (t @ r) \<longrightarrow> r \<in> insert ?arc F"
  proof (intro allI impI)
    fix r
    assume r: "r \<noteq> []" and f: "is_file fs2 (t @ r)"
    show "r \<in> insert ?arc F"
    proof (cases "r = ?arc")
      case True
      then show ?thesis by simp
    next
      case False
      with f have "is_file fs1 (t @ r)" by (simp add: is_file_def l2)
      with grew_at [OF g, of "t @ r"] have "is_file fs (t @ r)" by (auto simp: is_file_def)
      with r show ?thesis by (simp add: fl)
    qed
  qed
  have s4: "\<forall>r. r \<noteq> [] \<longrightarrow> is_dir fs2 (t @ r) \<longrightarrow> (\<exists>a \<in> insert ?arc D. strict_prefix r a)"
  proof (intro allI impI)
    fix r
    assume r: "r \<noteq> []" and f: "is_dir fs2 (t @ r)"
    then have d1: "is_dir fs1 (t @ r)" by (auto simp: is_dir_def l2 split: if_splits)
    show "\<exists>a \<in> insert ?arc D. strict_prefix r a"
    proof (cases "is_dir fs (t @ r)")
      case True
      with r dr [of r] show ?thesis by blast
    next
      case False
      with d1 grew_at [OF g, of "t @ r"] have "prefix (t @ r) ?upper" by (auto simp: is_dir_def)
      then have "prefix r (butlast ?arc)" by simp
      with ne have "strict_prefix r ?arc" by (rule strict_prefix_butlast)
      then show ?thesis by blast
    qed
  qed
  from res s1 s2 s3 s4 show ?thesis unfolding staged_def by blast
qed

lemma extractall_ok:
  assumes "staged fs t F D"
    and "\<forall>m \<in> set ms. sanitize (fst m) \<noteq> []
           \<and> (\<forall>a \<in> F. \<not> strict_prefix a (sanitize (fst m)))
           \<and> (\<forall>a \<in> D. \<not> strict_prefix (sanitize (fst m)) a)"
    and "\<forall>m \<in> set ms. \<forall>m' \<in> set ms. \<not> strict_prefix (sanitize (fst m')) (sanitize (fst m))"
  shows "\<exists>fs'. extractall t fs ms = (Inr (), fs')"
  using assms
proof (induction ms arbitrary: fs F D)
  case Nil
  then show ?case by simp
next
  case (Cons m ms)
  let ?arc = "sanitize (fst m)"
  from Cons.prems(2) have ne: "?arc \<noteq> []"
    and nF: "\<forall>a \<in> F. \<not> strict_prefix a ?arc"
    and nD: "\<forall>a \<in> D. \<not> strict_prefix ?arc a"
    by simp_all
  from extract_member_ok [OF Cons.prems(1) ne nF nD] obtain fs1 where
    e: "extract_member t fs m = (Inr (), fs1)"
    and st: "staged fs1 t (insert ?arc F) (insert ?arc D)"
    by blast
  have c2: "\<forall>m' \<in> set ms. sanitize (fst m') \<noteq> []
           \<and> (\<forall>a \<in> insert ?arc F. \<not> strict_prefix a (sanitize (fst m')))
           \<and> (\<forall>a \<in> insert ?arc D. \<not> strict_prefix (sanitize (fst m')) a)"
    using Cons.prems(2,3) by auto
  have c3: "\<forall>m1 \<in> set ms. \<forall>m' \<in> set ms.
              \<not> strict_prefix (sanitize (fst m')) (sanitize (fst m1))"
    using Cons.prems(3) by auto
  from Cons.IH [OF st c2 c3] obtain fs' where "extractall t fs1 ms = (Inr (), fs')" by blast
  with e show ?case by simp
qed

lemma clash_free_extracts:
  assumes d: "is_dir fs t" and nf: "no_file_above fs t"
    and c: "\<forall>r. r \<noteq> [] \<longrightarrow>
              lookup fs (t @ r) = (if r = [''manifest.json''] then Some (File x) else None)"
    and cf: "clash_free es"
  shows "\<exists>fs'. extractall t fs es = (Inr (), fs')"
proof -
  have "staged fs t {[''manifest.json'']} {}"
    using d nf c by (auto simp: staged_def is_file_def is_dir_def split: if_splits)
  moreover have "\<forall>m \<in> set es. sanitize (fst m) \<noteq> []
           \<and> (\<forall>a \<in> {[''manifest.json'']}. \<not> strict_prefix a (sanitize (fst m)))
           \<and> (\<forall>a \<in> {}. \<not> strict_prefix (sanitize (fst m)) a)"
    using cf by (auto simp: clash_free_def list_all_iff)
  moreover have "\<forall>m \<in> set es. \<forall>m' \<in> set es.
                   \<not> strict_prefix (sanitize (fst m')) (sanitize (fst m))"
    using cf by (auto simp: clash_free_def list_all_iff)
  ultimately show ?thesis by (rule extractall_ok)
qed

text \<open>
  C8, as the claim states it, fails. With no icon path and no README path, and a build
  archive that holds a member icon.png, \<open>prepare_package\<close> returns the staging
  directory and icon.png is in it: the extraction puts it there.
\<close>

theorem staging_icon_from_archive_counterexample:
  "lookup (w_fs icon_zip_world) (build_zip demo_packager)
     = Some (File (Archive [([''icon.png''], Image ''PNG'' 64 64),
                            ([''BepInEx'', ''a.dll''], Data ''a'')]))
   \<and> fst (prepare_package demo_packager [] None None icon_zip_world) = Inr demo_staging
   \<and> path_exists (w_fs (snd (prepare_package demo_packager [] None None icon_zip_world)))
        (demo_staging @ [''icon.png''])"
  by code_simp

text \<open>
  C8, amended. Let the file system be a tree around the staging path (no regular file at
  or above it, and it is a directory or nothing is stored at or below it), and let the
  build archive be an archive outside the staging directory. Then \<open>prepare_package\<close>
  with no icon path and no README path prints, after the line for the manifest, the two
  lines for the missing icon, the second naming the path of icon.png in the staging
  directory, the two lines for the missing README likewise, and the line for the
  extraction. It returns the staging directory when the members of the archive do not
  clash. Afterwards icon.png is absent from the staging directory unless a member of the
  archive is at or below that name, and so is README.md.
\<close>

theorem prepare_package_without_icon_and_readme:
  assumes nf: "no_file_above (w_fs w) (temp_dir pk)"
    and rs: "resettable (w_fs w) (temp_dir pk)"
    and zip: "lookup (w_fs w) (build_zip pk) = Some (File (Archive es))"
    and b2: "\<not> prefix (temp_dir pk) (build_zip pk)"
  shows "\<exists>res w'. prepare_package pk md None None w = (res, w')
           \<and> w_out w' =
               w_out w @ [CreatedManifest, NoIcon, CreateIconAt (temp_dir pk @ [''icon.png'']),
                          NoReadme, CreateReadmeAt (temp_dir pk @ [''README.md'']),
                          ExtractingBuild (last (build_zip pk))]
           \<and> (clash_free es \<longrightarrow> res = Inr (temp_dir pk))
           \<and> ((\<forall>m \<in> set es. \<not> prefix [''icon.png''] (sanitize (fst m))) \<longrightarrow>
                lookup (w_fs w') (temp_dir pk @ [''icon.png'']) = None)
           \<and> ((\<forall>m \<in> set es. \<not> prefix [''README.md''] (sanitize (fst m))) \<longrightarrow>
                lookup (w_fs w') (temp_dir pk @ [''README.md'']) = None)"
proof -
  let ?t = "temp_dir pk"
  let ?W = "say [CreatedManifest, NoIcon, CreateIconAt (?t @ [''icon.png'']),
                 NoReadme, CreateReadmeAt (?t @ [''README.md'']),
                 ExtractingBuild (last (build_zip pk))] w"
  from prepare_package_plain [OF nf rs zip b2, of md] obtain fs2 where
    d2: "is_dir fs2 ?t" and nf2: "no_file_above fs2 ?t"
    and c2: "\<forall>r. r \<noteq> [] \<longrightarrow>
               lookup fs2 (?t @ r) = (if r = [''manifest.json''] then Some (File (Json md))
                                      else None)"
    and pp: "prepare_package pk md None None w =
               (case extractall ?t fs2 es of
                  (Inl e, fs') \<Rightarrow> (Inl e, ?W\<lparr>w_fs := fs'\<rparr>)
                | (Inr u, fs') \<Rightarrow> (Inr ?t, ?W\<lparr>w_fs := fs'\<rparr>))"
    by blast
  obtain r fs' where ex: "extractall ?t fs2 es = (r, fs')" by (cases "extractall ?t fs2 es")
  let ?res = "case r of Inl e \<Rightarrow> Inl e | Inr u \<Rightarrow> Inr ?t"
  have p: "prepare_package pk md None None w = (?res, ?W\<lparr>w_fs := fs'\<rparr>)"
    using pp ex by (cases r) simp_all
  have o: "w_out (?W\<lparr>w_fs := fs'\<rparr>) =
             w_out w @ [CreatedManifest, NoIcon, CreateIconAt (?t @ [''icon.png'']),
                        NoReadme, CreateReadmeAt (?t @ [''README.md'']),
                        ExtractingBuild (last (build_zip pk))]"
    by (simp add: say_def)
  have s: "clash_free es \<longrightarrow> ?res = Inr ?t"
  proof
    assume "clash_free es"
    from clash_free_extracts [OF d2 nf2 c2 this] ex show "?res = Inr ?t" by auto
  qed
  have i: "(\<forall>m \<in> set es. \<not> prefix [''icon.png''] (sanitize (fst m))) \<longrightarrow>
             lookup (w_fs (?W\<lparr>w_fs := fs'\<rparr>)) (?t @ [''icon.png'']) = None"
    using extractall_untouched [OF ex, of "''icon.png''"] c2 by simp
  have rd: "(\<forall>m \<in> set es. \<not> prefix [''README.md''] (sanitize (fst m))) \<longrightarrow>
             lookup (w_fs (?W\<lparr>w_fs := fs'\<rparr>)) (?t @ [''README.md'']) = None"
    using extractall_untouched [OF ex, of "''README.md''"] c2 by simp
  from p o s i rd show ?thesis by blast
qed

theorem prepare_package_without_icon_and_readme_witness:
  "no_file_above (w_fs build_world) (temp_dir demo_packager)
   \<and> resettable (w_fs build_world) (temp_dir demo_packager)
   \<and> lookup (w_fs build_world) (build_zip demo_packager)
       = Some (File (Archive [([''BepInEx'', ''a.dll''], Data ''a''),
                              ([''BepInEx'', ''b.dll''], Data ''b'')]))
   \<and> clash_free [([''BepInEx'', ''a.dll''], Data ''a''), ([''BepInEx'', ''b.dll''], Data ''b'')]
   \<and> fst (prepare_package demo_packager [] None None build_world) = Inr demo_staging
   \<and> w_out (snd (prepare_package demo_packager [] None None build_world))
       = [CreatedManifest, NoIcon, CreateIconAt (demo_staging @ [''icon.png'']),
          NoReadme, CreateReadmeAt (demo_staging @ [''README.md'']),
          ExtractingBuild ''MLLoader-IL2CPP-BepInEx6-v2.1.0.zip'']
   \<and> \<not> path_exists (w_fs (snd (prepare_package demo_packager [] None None build_world)))
          (demo_staging @ [''icon.png''])
   \<and> \<not> path_exists (w_fs (snd (prepare_package demo_packager [] None None build_world)))
          (demo_staging @ [''README.md''])
   \<and> path_exists (w_fs (snd (prepare_package demo_packager [] None None build_world)))
        (demo_staging @ [''BepInEx'', ''b.dll''])"
proof -
  let ?es = "[([''BepInEx'', ''a.dll''], Data ''a''), ([''BepInEx'', ''b.dll''], Data ''b'')]"
  have h: "no_file_above (w_fs build_world) (temp_dir demo_packager)"
      "resettable (w_fs build_world) (temp_dir demo_packager)"
      "\<not> prefix (temp_dir demo_packager) (build_zip demo_packager)"
      "clash_free ?es"
    by code_simp+
  have z: "lookup (w_fs build_world) (build_zip demo_packager) = Some (File (Archive ?es))"
    by code_simp
  have t: "temp_dir demo_packager = demo_staging" by code_simp
  have b: "last (build_zip demo_packager) = ''MLLoader-IL2CPP-BepInEx6-v2.1.0.zip''"
    by code_simp
  have w0: "w_out build_world = []" by code_simp
  have n: "\<forall>m \<in> set ?es. \<not> prefix [''icon.png''] (sanitize (fst m))"
      "\<forall>m \<in> set ?es. \<not> prefix [''README.md''] (sanitize (fst m))"
    by (simp_all add: sanitize_def)
  have e: "path_exists (w_fs (snd (prepare_package demo_packager [] None None build_world)))
        (demo_staging @ [''BepInEx'', ''b.dll''])"
    by code_simp
  from prepare_package_without_icon_and_readme [OF h(1) h(2) z h(3), of "[]"] h(4) n
  obtain res w' where "prepare_package demo_packager [] None None build_world = (res, w')"
    and "w_out w' =
           w_out build_world
           @ [CreatedManifest, NoIcon, CreateIconAt (temp_dir demo_packager @ [''icon.png'']),
              NoReadme, CreateReadmeAt (temp_dir demo_packager @ [''README.md'']),
              ExtractingBuild (last (build_zip demo_packager))]"
    and "res = Inr (temp_dir demo_packager)"
    and "lookup (w_fs w') (temp_dir demo_packager @ [''icon.png'']) = None"
    and "lookup (w_fs w') (temp_dir demo_packager @ [''README.md'']) = None"
    by blast
  with h z e show ?thesis
    unfolding t b w0 by (simp add: path_exists_def)
qed

end
